theory Spec2Isabelle
  imports Complex_Main "HOL-Library.Monad_Syntax" "HOL-Library.Multiset"
begin

section \<open>Arrays\<close>

text \<open>
  The notebooks compute with \<^verbatim>\<open>jax.numpy\<close> arrays of floating-point numbers. Here
  an array entry is a real number, a one-dimensional array is a \<open>real list\<close> and a
  two-dimensional array is a list of its rows. Rounding is therefore outside this
  development: the arithmetic below is exact. Infinite and undefined numbers appear in
  one place, the product with the learning rate in the hand-written optimiser, and are
  introduced there.

  A parameter list of the hand-written network holds arrays of both ranks, so its
  entries are of type \<open>ndarray\<close>.

  A result of type \<open>'a option\<close> is \<open>Some v\<close> when the Python expression returns the
  value \<open>v\<close>. \<open>None\<close> stands for every other outcome: an exception (an index out of
  range in a Python list, operands whose shapes do not fit), a result that is not a
  real number (the mean of no entries, the logarithm of a non-positive entry), or a
  combination of ranks or of unequal shapes that numpy would broadcast and that the
  notebooks never form. Where a statement below asserts \<open>None\<close>, it is for an exception.
\<close>

datatype ndarray = Vec "real list" | Mat "real list list"

text \<open>
  A slot of a Python list and an attribute of an object hold a reference to an array, or
  to a tracer of automatic differentiation. A tracer stands for an array while the
  differentiated function runs; once that call has returned, a tracer that is still
  stored somewhere is leaked, and computing with it raises.
\<close>

text \<open>
  The hand-written optimiser can store an array with entries that are infinite or not a
  number. Such an array has entries of type \<open>floating\<close>; it can be stored and returned,
  and the real arithmetic of this development does not read it.
\<close>

datatype floating = Finite real | PosInf | NegInf | NaN

datatype farray = FVec "floating list" | FMat "floating list list"

datatype jaxval = Concrete ndarray | Tracer ndarray | LeakedTracer | NonFinite farray

fun value_of :: "jaxval \<Rightarrow> ndarray option" where
  "value_of (Concrete a) = Some a"
| "value_of (Tracer a) = Some a"
| "value_of LeakedTracer = None"
| "value_of (NonFinite a) = None"

definition nth_opt :: "'a list \<Rightarrow> nat \<Rightarrow> 'a option" where
  "nth_opt xs i = (if i < length xs then Some (xs ! i) else None)"

text \<open>\<^verbatim>\<open>np.matmul(weights, x)\<close> for a matrix and a vector: one dot product per row.\<close>

definition matmul :: "real list list \<Rightarrow> real list \<Rightarrow> real list option" where
  "matmul W x =
     (if list_all (\<lambda>row. length row = length x) W
      then Some (map (\<lambda>row. sum_list (map2 (*) row x)) W)
      else None)"

text \<open>\<^verbatim>\<open>a + b\<close> for two vectors of one length.\<close>

definition vadd :: "real list \<Rightarrow> real list \<Rightarrow> real list option" where
  "vadd a b = (if length a = length b then Some (map2 (+) a b) else None)"

text \<open>\<^verbatim>\<open>y * z\<close> for two matrices of one shape.\<close>

definition np_mul :: "real list list \<Rightarrow> real list list \<Rightarrow> real list list option" where
  "np_mul a b =
     (if list_all2 (\<lambda>r s. length r = length s) a b
      then Some (map2 (map2 (*)) a b)
      else None)"

text \<open>\<^verbatim>\<open>np.log\<close>, entry by entry; the logarithm of an entry that is not positive is no real number.\<close>

definition np_log :: "real list list \<Rightarrow> real list list option" where
  "np_log m =
     (if list_all (list_all (\<lambda>v. 0 < v)) m then Some (map (map ln) m) else None)"

text \<open>\<^verbatim>\<open>np.mean\<close> with no axis: the sum of all entries over their number.\<close>

definition np_mean :: "real list list \<Rightarrow> real option" where
  "np_mean m =
     (let entries = concat m
      in if entries = [] then None else Some (sum_list entries / real (length entries)))"

text \<open>
  \<^verbatim>\<open>np.argmax\<close> along the last axis: the first index that holds the largest entry; it
  raises on an empty row.
\<close>

fun argmax_loop :: "real list \<Rightarrow> nat \<Rightarrow> nat \<Rightarrow> real \<Rightarrow> nat" where
  "argmax_loop [] i best best_v = best"
| "argmax_loop (v # vs) i best best_v =
     (if best_v < v then argmax_loop vs (Suc i) i v else argmax_loop vs (Suc i) best best_v)"

fun argmax :: "real list \<Rightarrow> nat option" where
  "argmax [] = None"
| "argmax (v # vs) = Some (argmax_loop vs 1 0 v)"

text \<open>\<^verbatim>\<open>jax.vmap(f, in_axes=0, out_axes=0)(x)\<close>: \<open>f\<close> on every row of \<open>x\<close>, the results stacked.\<close>

primrec vmap :: "('a \<Rightarrow> 'b option) \<Rightarrow> 'a list \<Rightarrow> 'b list option" where
  "vmap f [] = Some []"
| "vmap f (r # rs) = do { v \<leftarrow> f r; vs \<leftarrow> vmap f rs; Some (v # vs) }"

section \<open>The network written from scratch\<close>

text \<open>
  \<^verbatim>\<open>
  def linear_layer(x,weights,bias):
      return np.matmul(weights,x) + bias

  def relu_activation(x):
      return np.maximum(x,0)

  def softmax_activation(x):
      Z = np.sum(np.exp(x))
      return np.exp(x)/Z
  \<close>
  \<open>matmul_plus\<close> is the expression \<^verbatim>\<open>np.matmul(weights,x) + bias\<close> on a matrix, a
  vector and a vector; \<open>linear_layer\<close> evaluates it on what its arguments refer to.
\<close>

fun matmul_plus :: "ndarray \<Rightarrow> real list \<Rightarrow> ndarray \<Rightarrow> real list option" where
  "matmul_plus (Mat weights) x (Vec bias) = do { h \<leftarrow> matmul weights x; vadd h bias }"
| "matmul_plus _ x _ = None"

definition linear_layer :: "real list \<Rightarrow> jaxval \<Rightarrow> jaxval \<Rightarrow> real list option" where
  "linear_layer x weights bias = do {
     w \<leftarrow> value_of weights;
     b \<leftarrow> value_of bias;
     matmul_plus w x b
   }"

definition relu_activation :: "real list \<Rightarrow> real list" where
  "relu_activation x = map (\<lambda>v. max v 0) x"

definition softmax_activation :: "real list \<Rightarrow> real list" where
  "softmax_activation x = (let Z = sum_list (map exp x) in map (\<lambda>v. exp v / Z) x)"

text \<open>
  \<^verbatim>\<open>
  class SimpleNetwork(object):
      def __init__(self,input_size,hidden_size,output_size,key):
          key1,key2,key3,key4 = jr.split(key,4)
          self.weights = [jr.normal(key1,shape=(hidden_size,input_size))*0.01,
                          jr.normal(key2,shape=(output_size,hidden_size))*0.01]
          self.bias = [jr.normal(key3,shape=(hidden_size,))*0.01,
                       jr.normal(key4,shape=(output_size,))*0.01]
      def __call__(self,x):
          h1 = linear_layer(x,self.weights[0],self.bias[0])
          h2 = relu_activation(h1)
          h3 = linear_layer(h2,self.weights[1],self.bias[1])
          h4 = softmax_activation(h3)
          return h4
  \<close>
  The object is a record of what its two fields hold. The library functions \<^verbatim>\<open>jr.split\<close> and
  \<^verbatim>\<open>jr.normal\<close> (for a matrix and for a vector) are parameters of the constructor;
  unpacking raises unless there are four keys. \<open>has_shape\<close> records the shapes the
  constructor gives the four arrays.
\<close>

record SimpleNetwork =
  weights :: "jaxval list"
  bias :: "jaxval list"

definition SimpleNetwork_call :: "SimpleNetwork \<Rightarrow> real list \<Rightarrow> real list option" where
  "SimpleNetwork_call self x = do {
     w0 \<leftarrow> nth_opt (weights self) 0;
     b0 \<leftarrow> nth_opt (bias self) 0;
     h1 \<leftarrow> linear_layer x w0 b0;
     let h2 = relu_activation h1;
     w1 \<leftarrow> nth_opt (weights self) 1;
     b1 \<leftarrow> nth_opt (bias self) 1;
     h3 \<leftarrow> linear_layer h2 w1 b1;
     let h4 = softmax_activation h3;
     Some h4
   }"

definition SimpleNetwork_init ::
  "('k \<Rightarrow> nat \<Rightarrow> 'k list) \<Rightarrow> ('k \<Rightarrow> nat \<Rightarrow> nat \<Rightarrow> real list list) \<Rightarrow> ('k \<Rightarrow> nat \<Rightarrow> real list) \<Rightarrow>
   nat \<Rightarrow> nat \<Rightarrow> nat \<Rightarrow> 'k \<Rightarrow> SimpleNetwork option" where
  "SimpleNetwork_init split normal_matrix normal_vector input_size hidden_size output_size key =
     (case split key 4 of
        [key1, key2, key3, key4] \<Rightarrow>
          Some \<lparr>weights =
                   [Concrete (Mat (map (map (\<lambda>v. v * (1 / 100)))
                                     (normal_matrix key1 hidden_size input_size))),
                    Concrete (Mat (map (map (\<lambda>v. v * (1 / 100)))
                                     (normal_matrix key2 output_size hidden_size)))],
                bias =
                   [Concrete (Vec (map (\<lambda>v. v * (1 / 100)) (normal_vector key3 hidden_size))),
                    Concrete (Vec (map (\<lambda>v. v * (1 / 100)) (normal_vector key4 output_size)))]\<rparr>
      | _ \<Rightarrow> None)"

definition is_matrix :: "nat \<Rightarrow> nat \<Rightarrow> ndarray \<Rightarrow> bool" where
  "is_matrix r c a =
     (case a of Mat m \<Rightarrow> length m = r \<and> list_all (\<lambda>row. length row = c) m | Vec v \<Rightarrow> False)"

definition is_vector :: "nat \<Rightarrow> ndarray \<Rightarrow> bool" where
  "is_vector n a = (case a of Vec v \<Rightarrow> length v = n | Mat m \<Rightarrow> False)"

definition refers_to :: "(ndarray \<Rightarrow> bool) \<Rightarrow> jaxval \<Rightarrow> bool" where
  "refers_to P v = (case value_of v of Some a \<Rightarrow> P a | None \<Rightarrow> False)"

definition has_shape :: "SimpleNetwork \<Rightarrow> nat \<Rightarrow> nat \<Rightarrow> nat \<Rightarrow> bool" where
  "has_shape self input_size hidden_size output_size =
     (length (weights self) = 2 \<and> length (bias self) = 2 \<and>
      refers_to (is_matrix hidden_size input_size) (weights self ! 0) \<and>
      refers_to (is_matrix output_size hidden_size) (weights self ! 1) \<and>
      refers_to (is_vector hidden_size) (bias self ! 0) \<and>
      refers_to (is_vector output_size) (bias self ! 1))"

section \<open>The network built from library layers\<close>

text \<open>
  \<^verbatim>\<open>
  class SimpleNetwork(eqx.Module):
      layers: list
      def __init__(self,input_size,hidden_size,output_size,key):
          key1, key2 = jax.random.split(key, 2)
          self.layers = [
              eqx.nn.Linear(input_size,hidden_size,key=key1),
              jax.nn.relu,
              eqx.nn.Linear(hidden_size,output_size,key=key2),
              jax.nn.softmax
          ]
      def __call__(self,x):
          for L in self.layers:
              x = L(x)
          return x
  \<close>
  The list holds callables of three kinds, all of them library code, taken here by
  what the libraries document: \<^verbatim>\<open>eqx.nn.Linear\<close> computes \<^verbatim>\<open>weight @ x + bias\<close>,
  \<^verbatim>\<open>jax.nn.relu\<close> is \<^verbatim>\<open>max(x, 0)\<close>, and \<^verbatim>\<open>jax.nn.softmax\<close> subtracts the
  largest entry before it exponentiates and normalises. An empty vector has no largest
  entry; what the library does with it is not modelled.
\<close>

datatype layer = Linear "real list list" "real list" | Relu | Softmax

definition jax_nn_softmax :: "real list \<Rightarrow> real list option" where
  "jax_nn_softmax x =
     (case x of
        [] \<Rightarrow> None
      | v # vs \<Rightarrow>
          (let x_max = fold max vs v;
               unnormalized = map (\<lambda>u. exp (u - x_max)) x
           in Some (map (\<lambda>u. u / sum_list unnormalized) unnormalized)))"

fun apply_layer :: "layer \<Rightarrow> real list \<Rightarrow> real list option" where
  "apply_layer (Linear weight b) x = do { h \<leftarrow> matmul weight x; vadd h b }"
| "apply_layer Relu x = Some (map (\<lambda>v. max v 0) x)"
| "apply_layer Softmax x = jax_nn_softmax x"

fun SimpleNetwork_eqx_call :: "layer list \<Rightarrow> real list \<Rightarrow> real list option" where
  "SimpleNetwork_eqx_call [] x = Some x"
| "SimpleNetwork_eqx_call (L # layers) x = do {
     x' \<leftarrow> apply_layer L x;
     SimpleNetwork_eqx_call layers x'
   }"

text \<open>The layer list the constructor builds, for given weights and biases.\<close>

definition SimpleNetwork_eqx_init ::
  "real list list \<Rightarrow> real list \<Rightarrow> real list list \<Rightarrow> real list \<Rightarrow> layer list" where
  "SimpleNetwork_eqx_init weight1 bias1 weight2 bias2 =
     [Linear weight1 bias1, Relu, Linear weight2 bias2, Softmax]"

definition linear_shape :: "nat \<Rightarrow> nat \<Rightarrow> real list list \<Rightarrow> real list \<Rightarrow> bool" where
  "linear_shape in_features out_features weight b =
     (length weight = out_features \<and> list_all (\<lambda>row. length row = in_features) weight \<and>
      length b = out_features)"

section \<open>Labels and their one-hot rows\<close>

text \<open>
  \<^verbatim>\<open>y_train_1hot = jax.nn.one_hot(y_train,num_classes=10,axis=-1)\<close>

  A label is an unsigned byte of the dataset, here a natural number. The library
  function compares the label with each class index \<^verbatim>\<open>0 .. num_classes-1\<close> and stores
  the truth value as a number, so a label outside the range gives a row of zeros.
\<close>

definition one_hot :: "nat \<Rightarrow> nat \<Rightarrow> real list" where
  "one_hot x num_classes = map (\<lambda>c. if x = c then 1 else 0) [0..<num_classes]"

definition y_1hot :: "nat list \<Rightarrow> real list list" where
  "y_1hot y = map (\<lambda>l. one_hot l 10) y"

section \<open>Loss\<close>

text \<open>
  In the notebook written from scratch:
  \<^verbatim>\<open>
  @jax.value_and_grad
  def loss(model_params,model,x,y):
      model.weights = [model_params[0],model_params[1]]
      model.bias = [model_params[2],model_params[3]]
      y_predicted = jax.vmap(model,in_axes=0,out_axes=0,axis_name="BATCHES")(x)
      return -np.mean(y*np.log(y_predicted))
  \<close>
  The function assigns to two fields of the object it is given, so the definition
  returns what the object holds after the call, beside the loss value. The decorator
  calls the function with tracers in place of the arrays of \<^verbatim>\<open>model_params\<close>, so it is
  tracers that the two assignments store: while the call runs they stand for the arrays
  \<open>model_params\<close>, and once it has returned they are leaked. The decorator makes the
  call return the gradient as well; automatic differentiation is not modelled, a gradient
  is an input wherever one is needed.
\<close>

fun leak :: "jaxval \<Rightarrow> jaxval" where
  "leak (Tracer a) = LeakedTracer"
| "leak v = v"

definition loss ::
  "ndarray list \<Rightarrow> SimpleNetwork \<Rightarrow> real list list \<Rightarrow> real list list \<Rightarrow>
     (real \<times> SimpleNetwork) option" where
  "loss model_params model x y = do {
     p0 \<leftarrow> nth_opt model_params 0;
     p1 \<leftarrow> nth_opt model_params 1;
     p2 \<leftarrow> nth_opt model_params 2;
     p3 \<leftarrow> nth_opt model_params 3;
     let model = model\<lparr>weights := [Tracer p0, Tracer p1]\<rparr>;
     let model = model\<lparr>bias := [Tracer p2, Tracer p3]\<rparr>;
     y_predicted \<leftarrow> vmap (SimpleNetwork_call model) x;
     l \<leftarrow> np_log y_predicted;
     yl \<leftarrow> np_mul y l;
     m \<leftarrow> np_mean yl;
     Some (- m, model\<lparr>weights := map leak (weights model), bias := map leak (bias model)\<rparr>)
   }"

text \<open>
  In the notebook built on the libraries the model is an immutable module:
  \<^verbatim>\<open>
  @eqx.filter_value_and_grad
  def loss(model,x,y):
      y_predicted = jax.vmap(model,in_axes=0,out_axes=0,axis_name="BATCHES")(x)
      return -np.mean(y*np.log(y_predicted))
  \<close>
\<close>

definition loss_eqx :: "layer list \<Rightarrow> real list list \<Rightarrow> real list list \<Rightarrow> real option" where
  "loss_eqx model x y = do {
     y_predicted \<leftarrow> vmap (SimpleNetwork_eqx_call model) x;
     l \<leftarrow> np_log y_predicted;
     yl \<leftarrow> np_mul y l;
     m \<leftarrow> np_mean yl;
     Some (- m)
   }"

section \<open>The training step of the notebook built on the libraries\<close>

text \<open>
  \<^verbatim>\<open>
  optim = optax.adam(LEARN_RATE)
  @eqx.filter_jit
  def make_step(model,opt_state,X,Y):
      loss_value,grad = loss(model,X,Y)
      updates, opt_state = optim.update(grad, opt_state, model)
      model = eqx.apply_updates(model, updates)
      return model, opt_state, loss_value
  \<close>
  The module is immutable. The gradient of the decorated \<^verbatim>\<open>loss\<close> and the library's
  \<^verbatim>\<open>optim.update\<close> are the parameters \<open>grad_of\<close> and \<open>optim_update\<close>; a gradient and
  an update have the structure of the model, here a list of layers.
  \<^verbatim>\<open>eqx.apply_updates\<close> adds the arrays of the update to those of the model, leaf by
  leaf, and leaves a layer without arrays as it is.
\<close>

definition madd :: "real list list \<Rightarrow> real list list \<Rightarrow> real list list option" where
  "madd a b =
     (if list_all2 (\<lambda>r s. length r = length s) a b
      then Some (map2 (map2 (+)) a b)
      else None)"

fun apply_update :: "layer \<Rightarrow> layer \<Rightarrow> layer option" where
  "apply_update (Linear dw db) (Linear weight b) = do {
     weight' \<leftarrow> madd weight dw;
     b' \<leftarrow> vadd b db;
     Some (Linear weight' b')
   }"
| "apply_update Relu Relu = Some Relu"
| "apply_update Softmax Softmax = Some Softmax"
| "apply_update _ _ = None"

fun apply_updates :: "layer list \<Rightarrow> layer list \<Rightarrow> layer list option" where
  "apply_updates [] [] = Some []"
| "apply_updates (p # model) (u # updates) = do {
     p' \<leftarrow> apply_update u p;
     model' \<leftarrow> apply_updates model updates;
     Some (p' # model')
   }"
| "apply_updates _ _ = None"

definition make_step ::
  "(layer list \<Rightarrow> 's \<Rightarrow> layer list \<Rightarrow> layer list \<times> 's) \<Rightarrow>
   (layer list \<Rightarrow> real list list \<Rightarrow> real list list \<Rightarrow> layer list) \<Rightarrow>
   layer list \<Rightarrow> 's \<Rightarrow> real list list \<Rightarrow> real list list \<Rightarrow> (layer list \<times> 's \<times> real) option" where
  "make_step optim_update grad_of model opt_state X Y = do {
     loss_value \<leftarrow> loss_eqx model X Y;
     let grad = grad_of model X Y;
     let (updates, opt_state) = optim_update grad opt_state model;
     model \<leftarrow> apply_updates model updates;
     Some (model, opt_state, loss_value)
   }"

section \<open>The hand-written optimiser\<close>


fun float32 :: "floating \<Rightarrow> floating" where
  "float32 (Finite r) =
     (if 2 ^ 128 - 2 ^ 103 \<le> r then PosInf
      else if r \<le> - (2 ^ 128 - 2 ^ 103) then NegInf
      else Finite r)"
| "float32 c = c"

fun fmul :: "floating \<Rightarrow> real \<Rightarrow> floating" where
  "fmul (Finite c) e = Finite (c * e)"
| "fmul PosInf e = (if e = 0 then NaN else if 0 < e then PosInf else NegInf)"
| "fmul NegInf e = (if e = 0 then NaN else if 0 < e then NegInf else PosInf)"
| "fmul NaN e = NaN"

fun fsub :: "real \<Rightarrow> floating \<Rightarrow> floating" where
  "fsub p (Finite v) = Finite (p - v)"
| "fsub p PosInf = NegInf"
| "fsub p NegInf = PosInf"
| "fsub p NaN = NaN"

fun real_of :: "floating \<Rightarrow> real option" where
  "real_of (Finite r) = Some r"
| "real_of c = None"

fun nd_scale :: "floating \<Rightarrow> ndarray \<Rightarrow> farray" where
  "nd_scale c (Vec v) = FVec (map (fmul (float32 c)) v)"
| "nd_scale c (Mat m) = FMat (map (map (fmul (float32 c))) m)"

fun nd_sub :: "ndarray \<Rightarrow> farray \<Rightarrow> farray option" where
  "nd_sub (Vec a) (FVec b) =
     (if length a = length b then Some (FVec (map2 fsub a b)) else None)"
| "nd_sub (Mat a) (FMat b) =
     (if list_all2 (\<lambda>r s. length r = length s) a b
      then Some (FMat (map2 (map2 fsub) a b)) else None)"
| "nd_sub _ _ = None"

fun as_ndarray :: "farray \<Rightarrow> ndarray option" where
  "as_ndarray (FVec v) = map_option Vec (vmap real_of v)"
| "as_ndarray (FMat m) = map_option Mat (vmap (vmap real_of) m)"

definition stored :: "farray \<Rightarrow> jaxval" where
  "stored d = (case as_ndarray d of Some a \<Rightarrow> Concrete a | None \<Rightarrow> NonFinite d)"

fun optimiser_loop ::
  "jaxval list \<Rightarrow> floating \<Rightarrow> (nat \<times> ndarray) list \<Rightarrow> jaxval list option" where
  "optimiser_loop model_parameters learn_rate [] = Some model_parameters"
| "optimiser_loop model_parameters learn_rate ((i, dm) # rest) = do {
     v \<leftarrow> nth_opt model_parameters i;
     p \<leftarrow> value_of v;
     d \<leftarrow> nd_sub p (nd_scale learn_rate dm);
     optimiser_loop (model_parameters[i := stored d]) learn_rate rest
   }"

definition optimiser :: "jaxval list \<Rightarrow> ndarray list \<Rightarrow> floating \<Rightarrow> jaxval list option" where
  "optimiser model_parameters gradient learn_rate =
     optimiser_loop model_parameters learn_rate (enumerate 0 gradient)"



section \<open>Drawing a batch\<close>

text \<open>
  \<^verbatim>\<open>
  train_key = jr.fold_in(key,i)
  inds = jr.choice(train_key,np.arange(60000),(BATCH_SIZE,),replace=False)
  \<close>
  Both functions are library code. With \<^verbatim>\<open>replace=False\<close> and no weights the library
  returns no sample when none is asked for, raises when the pool is empty or smaller than
  the sample, and otherwise keeps the first \<^verbatim>\<open>BATCH_SIZE\<close> entries of
  \<^verbatim>\<open>jax.random.permutation(key, a)\<close>. The pseudo-random functions \<open>permutation\<close> and
  \<open>fold_in\<close> are parameters; \<open>'k\<close> is the type of keys.
\<close>

definition choice :: "('k \<Rightarrow> nat list \<Rightarrow> nat list) \<Rightarrow> 'k \<Rightarrow> nat list \<Rightarrow> nat \<Rightarrow> nat list option" where
  "choice permutation key a n_draws =
     (if n_draws = 0 then Some []
      else if a = [] then None
      else if length a < n_draws then None
      else Some (take n_draws (permutation key a)))"

definition arange :: "nat \<Rightarrow> nat list" where
  "arange n = [0..<n]"

text \<open>The draw of step \<open>i\<close> in the two perceptron notebooks.\<close>

definition train_inds ::
  "('k \<Rightarrow> nat list \<Rightarrow> nat list) \<Rightarrow> ('k \<Rightarrow> nat \<Rightarrow> 'k) \<Rightarrow> 'k \<Rightarrow> nat \<Rightarrow> nat \<Rightarrow> nat list option" where
  "train_inds permutation fold_in key BATCH_SIZE i =
     (let train_key = fold_in key i
      in choice permutation train_key (arange 60000) BATCH_SIZE)"

text \<open>
  In the notebook of the differential equation the key is folded again at every step:
  \<^verbatim>\<open>
  train_key = jr.fold_in(key,1)
  for i in tqdm(range(steps)):
      train_key = jr.fold_in(train_key,i)
      inds = jr.choice(train_key,np.arange(5421),(BATCH_SIZE,),replace=False)
  \<close>
\<close>

primrec ode_train_key :: "('k \<Rightarrow> nat \<Rightarrow> 'k) \<Rightarrow> 'k \<Rightarrow> nat \<Rightarrow> 'k" where
  "ode_train_key fold_in key 0 = fold_in (fold_in key 1) 0"
| "ode_train_key fold_in key (Suc i) = fold_in (ode_train_key fold_in key i) (Suc i)"

definition ode_train_inds ::
  "('k \<Rightarrow> nat list \<Rightarrow> nat list) \<Rightarrow> ('k \<Rightarrow> nat \<Rightarrow> 'k) \<Rightarrow> 'k \<Rightarrow> nat \<Rightarrow> nat \<Rightarrow> nat list option" where
  "ode_train_inds permutation fold_in key BATCH_SIZE i =
     choice permutation (ode_train_key fold_in key i) (arange 5421) BATCH_SIZE"

section \<open>Reading a jax array\<close>

definition jax_get :: "'a list \<Rightarrow> nat \<Rightarrow> 'a option" where
  "jax_get xs i = (if xs = [] then None else Some (xs ! min i (length xs - 1)))"

section \<open>The training cell of the hand-written notebook\<close>

text \<open>
  \<^verbatim>\<open>
  nn = SimpleNetwork(28*28,100,10,key)
  nn_params = [nn.weights[0],nn.weights[1],nn.bias[0],nn.bias[1]]
  TRAIN_ITERS = 1000
  BATCH_SIZE = 64
  loss_log = []
  for i in tqdm(range(TRAIN_ITERS)):
      train_key = jr.fold_in(key,i)
      inds = jr.choice(train_key,np.arange(60000),(BATCH_SIZE,),replace=False)
      x = x_train_flat[inds]
      y = y_train_1hot[inds]
      loss_value,grad = loss(nn_params,nn,x,y)
      nn_params = optimiser(nn_params,grad,learn_rate=1e-1)
      loss_log.append(loss_value)
  nn.weights = nn_params[0],nn_params[1]
  nn.bias = nn_params[2],nn_params[3]
  \<close>
  Lists and tuples are objects with an identity, and \<^verbatim>\<open>optimiser\<close> assigns to the slots
  of the list it is given. So the cell runs on a store: \<open>heap\<close> maps the address of
  every list or tuple to its slots, a new one is put at the next free address, and the
  attributes \<^verbatim>\<open>nn.weights\<close>, \<^verbatim>\<open>nn.bias\<close> and the variable \<^verbatim>\<open>nn_params\<close> hold
  addresses. Arrays are immutable; a slot holds the array itself.
\<close>

type_synonym addr = nat

record notebook =
  heap :: "addr \<Rightarrow> jaxval list option"
  next_free :: addr
  nn_weights :: addr
  nn_bias :: addr
  nn_params :: addr
  loss_log :: "real list"

definition new_list :: "jaxval list \<Rightarrow> notebook \<Rightarrow> addr \<times> notebook" where
  "new_list slots st =
     (next_free st,
      st\<lparr>heap := (heap st)(next_free st \<mapsto> slots), next_free := Suc (next_free st)\<rparr>)"

definition item :: "notebook \<Rightarrow> addr \<Rightarrow> nat \<Rightarrow> jaxval option" where
  "item st a i = do { slots \<leftarrow> heap st a; nth_opt slots i }"

text \<open>What the two attributes of \<^verbatim>\<open>nn\<close> refer to.\<close>

definition nn_object :: "notebook \<Rightarrow> SimpleNetwork option" where
  "nn_object st = do {
     w \<leftarrow> heap st (nn_weights st);
     b \<leftarrow> heap st (nn_bias st);
     Some \<lparr>weights = w, bias = b\<rparr>
   }"

text \<open>
  The first four lines of the cell, for the lists that the constructor has made. The
  addresses written first into the record stand for names not yet bound.
\<close>

definition notebook_init :: "SimpleNetwork \<Rightarrow> notebook option" where
  "notebook_init net = do {
     let st = \<lparr>heap = Map.empty, next_free = 0,
               nn_weights = 0, nn_bias = 0, nn_params = 0, loss_log = []\<rparr>;
     let (w, st) = new_list (weights net) st;
     let st = st\<lparr>nn_weights := w\<rparr>;
     let (b, st) = new_list (bias net) st;
     let st = st\<lparr>nn_bias := b\<rparr>;
     w0 \<leftarrow> item st (nn_weights st) 0;
     w1 \<leftarrow> item st (nn_weights st) 1;
     b0 \<leftarrow> item st (nn_bias st) 0;
     b1 \<leftarrow> item st (nn_bias st) 1;
     let (p, st) = new_list [w0, w1, b0, b1] st;
     Some (st\<lparr>nn_params := p, loss_log := []\<rparr>)
   }"

definition draw_batch ::
  "('k \<Rightarrow> nat list \<Rightarrow> nat list) \<Rightarrow> ('k \<Rightarrow> nat \<Rightarrow> 'k) \<Rightarrow> real list list \<Rightarrow> real list list \<Rightarrow>
   'k \<Rightarrow> nat \<Rightarrow> (real list list \<times> real list list) option" where
  "draw_batch permutation fold_in x_train_flat y_train_1hot key i = do {
     inds \<leftarrow> train_inds permutation fold_in key 64 i;
     x \<leftarrow> vmap (nth_opt x_train_flat) inds;
     y \<leftarrow> vmap (jax_get y_train_1hot) inds;
     Some (x, y)
   }"

text \<open>
  \<^verbatim>\<open>x_train_flat\<close> is a numpy array, which raises on an index out of range;
  \<^verbatim>\<open>y_train_1hot\<close> is a jax array, which clamps it.

  \<^verbatim>\<open>loss(nn_params,nn,x,y)\<close>: the decorator traces the arrays of the list (every slot
  must refer to one); the two lists that the body assigns to the attributes are new
  objects; the gradient that the call returns is the parameter \<open>grad_of\<close>.
\<close>

definition call_loss ::
  "(ndarray list \<Rightarrow> real list list \<Rightarrow> real list list \<Rightarrow> ndarray list) \<Rightarrow>
   notebook \<Rightarrow> real list list \<Rightarrow> real list list \<Rightarrow> (real \<times> ndarray list \<times> notebook) option" where
  "call_loss grad_of st x y = do {
     slots \<leftarrow> heap st (nn_params st);
     model_params \<leftarrow> vmap value_of slots;
     model \<leftarrow> nn_object st;
     (loss_value, model) \<leftarrow> loss model_params model x y;
     let (w, st) = new_list (weights model) st;
     let st = st\<lparr>nn_weights := w\<rparr>;
     let (b, st) = new_list (bias model) st;
     let st = st\<lparr>nn_bias := b\<rparr>;
     Some (loss_value, grad_of model_params x y, st)
   }"

text \<open>
  \<^verbatim>\<open>optimiser(model_parameters,gradient,learn_rate)\<close> on the list at the address
  \<open>model_parameters\<close>: the slots of that list are assigned and the same list is returned.
\<close>

definition call_optimiser ::
  "notebook \<Rightarrow> addr \<Rightarrow> ndarray list \<Rightarrow> floating \<Rightarrow> (addr \<times> notebook) option" where
  "call_optimiser st model_parameters gradient learn_rate = do {
     slots \<leftarrow> heap st model_parameters;
     slots \<leftarrow> optimiser slots gradient learn_rate;
     Some (model_parameters, st\<lparr>heap := (heap st)(model_parameters \<mapsto> slots)\<rparr>)
   }"

text \<open>The last three lines of the loop body.\<close>

definition train_step ::
  "(ndarray list \<Rightarrow> real list list \<Rightarrow> real list list \<Rightarrow> ndarray list) \<Rightarrow>
   notebook \<Rightarrow> real list list \<Rightarrow> real list list \<Rightarrow> notebook option" where
  "train_step grad_of st x y = do {
     (loss_value, grad, st) \<leftarrow> call_loss grad_of st x y;
     (params, st) \<leftarrow> call_optimiser st (nn_params st) grad (Finite (1 / 10));
     Some (st\<lparr>nn_params := params, loss_log := loss_log st @ [loss_value]\<rparr>)
   }"

definition train_iter ::
  "('k \<Rightarrow> nat list \<Rightarrow> nat list) \<Rightarrow> ('k \<Rightarrow> nat \<Rightarrow> 'k) \<Rightarrow>
   (ndarray list \<Rightarrow> real list list \<Rightarrow> real list list \<Rightarrow> ndarray list) \<Rightarrow>
   real list list \<Rightarrow> real list list \<Rightarrow> 'k \<Rightarrow> notebook \<Rightarrow> nat \<Rightarrow> notebook option" where
  "train_iter permutation fold_in grad_of x_train_flat y_train_1hot key st i = do {
     (x, y) \<leftarrow> draw_batch permutation fold_in x_train_flat y_train_1hot key i;
     train_step grad_of st x y
   }"

fun train_loop ::
  "('k \<Rightarrow> nat list \<Rightarrow> nat list) \<Rightarrow> ('k \<Rightarrow> nat \<Rightarrow> 'k) \<Rightarrow>
   (ndarray list \<Rightarrow> real list list \<Rightarrow> real list list \<Rightarrow> ndarray list) \<Rightarrow>
   real list list \<Rightarrow> real list list \<Rightarrow> 'k \<Rightarrow> notebook \<Rightarrow> nat list \<Rightarrow> notebook option" where
  "train_loop permutation fold_in grad_of x_train_flat y_train_1hot key st [] = Some st"
| "train_loop permutation fold_in grad_of x_train_flat y_train_1hot key st (i # rest) = do {
     st \<leftarrow> train_iter permutation fold_in grad_of x_train_flat y_train_1hot key st i;
     train_loop permutation fold_in grad_of x_train_flat y_train_1hot key st rest
   }"

text \<open>The two assignments after the loop; each right-hand side is a new tuple.\<close>

definition store_trained_parameters :: "notebook \<Rightarrow> notebook option" where
  "store_trained_parameters st = do {
     p0 \<leftarrow> item st (nn_params st) 0;
     p1 \<leftarrow> item st (nn_params st) 1;
     let (w, st) = new_list [p0, p1] st;
     let st = st\<lparr>nn_weights := w\<rparr>;
     p2 \<leftarrow> item st (nn_params st) 2;
     p3 \<leftarrow> item st (nn_params st) 3;
     let (b, st) = new_list [p2, p3] st;
     Some (st\<lparr>nn_bias := b\<rparr>)
   }"

definition training_cell ::
  "('k \<Rightarrow> nat list \<Rightarrow> nat list) \<Rightarrow> ('k \<Rightarrow> nat \<Rightarrow> 'k) \<Rightarrow>
   (ndarray list \<Rightarrow> real list list \<Rightarrow> real list list \<Rightarrow> ndarray list) \<Rightarrow>
   real list list \<Rightarrow> real list list \<Rightarrow> 'k \<Rightarrow> SimpleNetwork \<Rightarrow> nat \<Rightarrow> notebook option" where
  "training_cell permutation fold_in grad_of x_train_flat y_train_1hot key net TRAIN_ITERS = do {
     st \<leftarrow> notebook_init net;
     st \<leftarrow> train_loop permutation fold_in grad_of x_train_flat y_train_1hot key st
            [0..<TRAIN_ITERS];
     store_trained_parameters st
   }"

text \<open>
  No aliasing: the list of the variable \<^verbatim>\<open>nn_params\<close> and the lists of the two
  attributes of \<^verbatim>\<open>nn\<close> are three different objects, all of them in the store.
\<close>

definition unaliased :: "notebook \<Rightarrow> bool" where
  "unaliased st =
     (nn_weights st < next_free st \<and> nn_bias st < next_free st \<and> nn_params st < next_free st \<and>
      nn_params st \<noteq> nn_weights st \<and> nn_params st \<noteq> nn_bias st \<and> nn_weights st \<noteq> nn_bias st)"

section \<open>Evaluation\<close>

text \<open>
  \<^verbatim>\<open>
  y_test_predictions = np.argmax(jax.vmap(nn)(x_test_flat),axis=1)
  confusion_matrix = np.zeros((10,10))
  for i in range(len(y_test)):
      confusion_matrix = confusion_matrix.at[y_test[i],y_test_predictions[i]].set(
          confusion_matrix[y_test[i],y_test_predictions[i]]+1)
  \<close>
  The network \<^verbatim>\<open>nn\<close> is any callable \<open>model\<close>. Reading a jax array clamps an index
  that is out of range (an empty array has no entry to clamp to), and
  \<^verbatim>\<open>.at[...].set\<close> drops an update whose index is out of range. \<^verbatim>\<open>y_test\<close> is a
  numpy array and the loop only reads it below its length.
\<close>

definition y_test_predictions ::
  "(real list \<Rightarrow> real list option) \<Rightarrow> real list list \<Rightarrow> nat list option" where
  "y_test_predictions model x_test_flat = do {
     out \<leftarrow> vmap model x_test_flat;
     vmap argmax out
   }"

definition zeros :: "nat \<Rightarrow> nat \<Rightarrow> real list list" where
  "zeros r c = replicate r (replicate c 0)"

definition at_set :: "real list list \<Rightarrow> nat \<Rightarrow> nat \<Rightarrow> real \<Rightarrow> real list list" where
  "at_set m r c v =
     (if r < length m \<and> c < length (m ! r) then m[r := (m ! r)[c := v]] else m)"

definition jax_get2 :: "real list list \<Rightarrow> nat \<Rightarrow> nat \<Rightarrow> real option" where
  "jax_get2 m r c = do { row \<leftarrow> jax_get m r; jax_get row c }"

fun confusion_loop ::
  "real list list \<Rightarrow> nat list \<Rightarrow> nat list \<Rightarrow> nat list \<Rightarrow> real list list option" where
  "confusion_loop confusion_matrix y_test predictions [] = Some confusion_matrix"
| "confusion_loop confusion_matrix y_test predictions (i # rest) = do {
     p \<leftarrow> jax_get predictions i;
     v \<leftarrow> jax_get2 confusion_matrix (y_test ! i) p;
     confusion_loop (at_set confusion_matrix (y_test ! i) p (v + 1)) y_test predictions rest
   }"

definition confusion_matrix ::
  "(real list \<Rightarrow> real list option) \<Rightarrow> real list list \<Rightarrow> nat list \<Rightarrow> real list list option" where
  "confusion_matrix model x_test_flat y_test = do {
     predictions \<leftarrow> y_test_predictions model x_test_flat;
     confusion_loop (zeros 10 10) y_test predictions [0..<length y_test]
   }"

section \<open>Grouping the images by digit\<close>

text \<open>
  \<^verbatim>\<open>
  x_train_grouped = []
  lengths = []
  for i in range(10):
      x_train_grouped.append(x_train[y_train==i])
      lengths.append(x_train_grouped[i].shape[0])
  minlength = np.min(np.array(lengths))
  for i in range(10):
      x_train_grouped[i] = x_train_grouped[i][:minlength]
  x_train_grouped = einops.rearrange(x_train_grouped,"numbers N b x y -> N (b numbers) () x y")
  \<close>
  An image is a value of any type \<open>'a\<close>. \<^verbatim>\<open>x_train[y_train==i]\<close> keeps the images whose
  label is \<open>i\<close>, in the order of the dataset (\<open>class_samples\<close>); selecting with a
  boolean mask raises when the mask and the array differ in length.
  \<^verbatim>\<open>einops.rearrange\<close> stacks the list of groups, which raises unless all groups have
  one length, and then puts the sample axis first: entry \<open>n\<close> of the result holds
  sample \<open>n\<close> of every digit.
\<close>

definition class_samples :: "'a list \<Rightarrow> nat list \<Rightarrow> nat \<Rightarrow> 'a list" where
  "class_samples x_train y_train i = map fst (filter (\<lambda>(img, l). l = i) (zip x_train y_train))"

definition mask_select :: "'a list \<Rightarrow> nat list \<Rightarrow> nat \<Rightarrow> 'a list option" where
  "mask_select x_train y_train i =
     (if length x_train = length y_train then Some (class_samples x_train y_train i) else None)"

fun group_loop ::
  "'a list \<Rightarrow> nat list \<Rightarrow> 'a list list \<times> nat list \<Rightarrow> nat list \<Rightarrow> ('a list list \<times> nat list) option" where
  "group_loop x_train y_train (grouped, lengths) [] = Some (grouped, lengths)"
| "group_loop x_train y_train (grouped, lengths) (i # rest) = do {
     g \<leftarrow> mask_select x_train y_train i;
     let grouped = grouped @ [g];
     gi \<leftarrow> nth_opt grouped i;
     let lengths = lengths @ [length gi];
     group_loop x_train y_train (grouped, lengths) rest
   }"

fun np_min :: "nat list \<Rightarrow> nat option" where
  "np_min [] = None"
| "np_min (l # ls) = Some (fold min ls l)"

fun truncate_loop :: "'a list list \<Rightarrow> nat \<Rightarrow> nat list \<Rightarrow> 'a list list option" where
  "truncate_loop grouped minlength [] = Some grouped"
| "truncate_loop grouped minlength (i # rest) = do {
     gi \<leftarrow> nth_opt grouped i;
     truncate_loop (grouped[i := take minlength gi]) minlength rest
   }"

definition x_train_grouped :: "'a list \<Rightarrow> nat list \<Rightarrow> 'a list list option" where
  "x_train_grouped x_train y_train = do {
     (grouped, lengths) \<leftarrow> group_loop x_train y_train ([], []) [0..<10];
     minlength \<leftarrow> np_min lengths;
     truncate_loop grouped minlength [0..<10]
   }"

definition rearrange :: "'a list list \<Rightarrow> 'a list list option" where
  "rearrange grouped =
     (case grouped of
        [] \<Rightarrow> None
      | g # _ \<Rightarrow>
          if list_all (\<lambda>gi. length gi = length g) grouped
          then Some (map (\<lambda>n. map (\<lambda>gi. gi ! n) grouped) [0..<length g])
          else None)"

definition x_train_grouped_rearranged :: "'a list \<Rightarrow> nat list \<Rightarrow> 'a list list option" where
  "x_train_grouped_rearranged x_train y_train = do {
     grouped \<leftarrow> x_train_grouped x_train y_train;
     rearrange grouped
   }"

section \<open>Properties of the array operations\<close>

lemma matmul_Some:
  "list_all (\<lambda>row. length row = length x) W \<Longrightarrow>
     \<exists>h. matmul W x = Some h \<and> length h = length W"
  by (simp add: matmul_def)

lemma vmap_eq_Some_iff: "vmap f x = Some P \<longleftrightarrow> map f x = map Some P"
proof (induction x arbitrary: P)
  case Nil
  then show ?case by auto
next
  case (Cons r rs)
  show ?case
  proof (cases "f r")
    case None
    then show ?thesis by (cases P) auto
  next
    case (Some v)
    show ?thesis
    proof (cases "vmap f rs")
      case None
      with Cons.IH Some show ?thesis by (cases P) auto
    next
      case vs: (Some vs)
      with Cons.IH Some show ?thesis by (cases P) auto
    qed
  qed
qed

lemma vmap_Some:
  assumes "\<forall>r\<in>set x. \<exists>v. f r = Some v"
  shows "\<exists>P. vmap f x = Some P \<and> length P = length x \<and> (\<forall>b<length x. f (x ! b) = Some (P ! b))"
proof -
  let ?P = "map (\<lambda>r. the (f r)) x"
  have "map f x = map Some ?P" using assms by (induction x) auto
  then have "vmap f x = Some ?P" by (simp add: vmap_eq_Some_iff)
  moreover have "\<forall>b<length x. f (x ! b) = Some (?P ! b)" using assms by fastforce
  ultimately show ?thesis by simp
qed

lemma vmap_Some_all:
  assumes "\<forall>r\<in>set x. \<exists>v. f r = Some v \<and> Q v"
  shows "\<exists>P. vmap f x = Some P \<and> length P = length x \<and> (\<forall>v\<in>set P. Q v)"
proof -
  from assms have "\<forall>r\<in>set x. \<exists>v. f r = Some v" by blast
  from vmap_Some [OF this] obtain P where P: "vmap f x = Some P" "length P = length x"
    "\<forall>b<length x. f (x ! b) = Some (P ! b)" by blast
  have "\<forall>v\<in>set P. Q v"
  proof
    fix v assume "v \<in> set P"
    then obtain b where b: "b < length x" "v = P ! b"
      using P(2) by (metis in_set_conv_nth)
    with P(3) have "f (x ! b) = Some v" by simp
    moreover from b assms obtain v' where "f (x ! b) = Some v'" "Q v'"
      by (meson nth_mem)
    ultimately show "Q v" by simp
  qed
  with P show ?thesis by blast
qed

lemma sum_list_concat_rows: "sum_list (concat (m :: real list list)) = sum_list (map sum_list m)"
  by (induction m) auto

lemma length_concat_rect:
  "\<forall>row\<in>set m. length row = C \<Longrightarrow> length (concat m) = length m * C"
  by (induction m) auto

lemma sum_list_rect:
  assumes "length m = B" and "\<forall>row\<in>set m. length row = C"
  shows "sum_list (concat m) = (\<Sum>b<B. \<Sum>c<C. (m ! b ! c :: real))"
proof -
  have "sum_list (concat m) = sum_list (map sum_list m)"
    by (rule sum_list_concat_rows)
  also have "\<dots> = (\<Sum>b = 0..<length m. map sum_list m ! b)"
    using sum_list_sum_nth [of "map sum_list m"] by simp
  also have "\<dots> = (\<Sum>b = 0..<length m. \<Sum>c = 0..<C. m ! b ! c)"
  proof (rule sum.cong)
    fix b assume "b \<in> {0..<length m}"
    then have b: "b < length m" by simp
    then have "length (m ! b) = C" using assms(2) by simp
    with b show "map sum_list m ! b = (\<Sum>c = 0..<C. m ! b ! c)"
      using sum_list_sum_nth [of "m ! b"] by simp
  qed simp
  finally show ?thesis using assms(1) by (simp add: atLeast0LessThan)
qed

lemma np_mean_rect:
  assumes "length m = B" and "\<forall>row\<in>set m. length row = C" and "0 < B" and "0 < C"
  shows "np_mean m = Some ((\<Sum>b<B. \<Sum>c<C. m ! b ! c) / (real B * real C))"
proof -
  have len: "length (concat m) = B * C"
    using length_concat_rect [OF assms(2)] assms(1) by simp
  have "concat m \<noteq> []"
  proof
    assume "concat m = []"
    then have "length (concat m) = length ([] :: real list)" by (rule arg_cong)
    with len assms(3,4) show False by simp
  qed
  with len sum_list_rect [OF assms(1,2)] show ?thesis
    by (simp add: np_mean_def Let_def)
qed

lemma sum_list_update_add:
  "k < length xs \<Longrightarrow> sum_list (xs[k := xs ! k + d]) = sum_list xs + (d :: real)"
proof (induction xs arbitrary: k)
  case Nil
  then show ?case by simp
next
  case (Cons x xs)
  then show ?case by (cases k) auto
qed

lemma jax_get_in_range: "i < length xs \<Longrightarrow> jax_get xs i = Some (xs ! i)"
  by (auto simp: jax_get_def min_def)

lemma jax_get2_in_range:
  "r < length m \<Longrightarrow> c < length (m ! r) \<Longrightarrow> jax_get2 m r c = Some (m ! r ! c)"
  by (simp add: jax_get2_def jax_get_in_range)

section \<open>Soft-max\<close>

lemma sum_list_exp_nonneg: "0 \<le> sum_list (map exp (x :: real list))"
  by (rule sum_list_nonneg) auto

lemma sum_list_exp_pos: "x \<noteq> [] \<Longrightarrow> 0 < sum_list (map exp (x :: real list))"
proof (cases x)
  case Nil
  assume "x \<noteq> []"
  with Nil show ?thesis by simp
next
  case (Cons v vs)
  have "0 < exp v + sum_list (map exp vs)"
    by (rule add_pos_nonneg) (simp_all add: sum_list_exp_nonneg)
  with Cons show ?thesis by simp
qed

lemma sum_list_divide: "sum_list (map (\<lambda>v. f v / (Z :: real)) x) = sum_list (map f x) / Z"
  by (induction x) (auto simp: add_divide_distrib)

lemma softmax_activation_length: "length (softmax_activation x) = length x"
  by (simp add: softmax_activation_def Let_def)

lemma softmax_activation_pos:
  assumes "p \<in> set (softmax_activation x)"
  shows "0 < p"
proof -
  from assms obtain v where v: "v \<in> set x" and p: "p = exp v / sum_list (map exp x)"
    by (auto simp: softmax_activation_def Let_def)
  from v have "x \<noteq> []" by auto
  then have "0 < sum_list (map exp x)" by (rule sum_list_exp_pos)
  with p show ?thesis by simp
qed

lemma softmax_activation_sum:
  assumes "x \<noteq> []"
  shows "sum_list (softmax_activation x) = 1"
proof -
  have "0 < sum_list (map exp x)" using assms by (rule sum_list_exp_pos)
  then show ?thesis
    by (simp add: softmax_activation_def Let_def sum_list_divide)
qed

lemma jax_nn_softmax_Some:
  assumes "z \<noteq> []"
  shows "\<exists>p. jax_nn_softmax z = Some p \<and> length p = length z \<and> (\<forall>v\<in>set p. 0 < v) \<and> sum_list p = 1"
proof -
  from assms obtain v vs where z: "z = v # vs" by (cases z) auto
  define m where "m = fold max vs v"
  define u where "u = map (\<lambda>e. e - m) z"
  have u: "u \<noteq> []" "length u = length z" using assms by (simp_all add: u_def)
  have un: "map (\<lambda>e. exp (e - m)) z = map exp u" by (simp add: u_def)
  have sm: "jax_nn_softmax z = Some (softmax_activation u)"
    using z by (simp add: jax_nn_softmax_def Let_def m_def [symmetric] softmax_activation_def
        u_def o_def del: list.map)
  show ?thesis
    using sm u softmax_activation_pos [of _ u] softmax_activation_sum [of u]
    by (auto simp: softmax_activation_length)
qed

section \<open>Arg-max\<close>

text \<open>
  The loop keeps the first index of the largest entry seen so far: its result lies in
  the list, no entry is larger than the one it points to, and every earlier entry is
  strictly smaller.
\<close>

lemma argmax_loop_spec:
  assumes "i = length pre" "best < i" "bv = pre ! best"
    and "\<forall>j<i. pre ! j \<le> bv" and "\<forall>j<best. pre ! j < bv"
  shows "argmax_loop vs i best bv < length (pre @ vs) \<and>
         (\<forall>j<length (pre @ vs). (pre @ vs) ! j \<le> (pre @ vs) ! argmax_loop vs i best bv) \<and>
         (\<forall>j<argmax_loop vs i best bv. (pre @ vs) ! j < (pre @ vs) ! argmax_loop vs i best bv)"
  using assms
proof (induction vs arbitrary: pre i best bv)
  case Nil
  then show ?case by simp
next
  case (Cons v vs)
  show ?case
  proof (cases "bv < v")
    case True
    have "argmax_loop vs (Suc i) i v < length ((pre @ [v]) @ vs) \<and>
         (\<forall>j<length ((pre @ [v]) @ vs). ((pre @ [v]) @ vs) ! j \<le> ((pre @ [v]) @ vs) ! argmax_loop vs (Suc i) i v) \<and>
         (\<forall>j<argmax_loop vs (Suc i) i v. ((pre @ [v]) @ vs) ! j < ((pre @ [v]) @ vs) ! argmax_loop vs (Suc i) i v)"
    proof (rule Cons.IH)
      show "Suc i = length (pre @ [v])" using Cons.prems by simp
      show "i < Suc i" by simp
      show "v = (pre @ [v]) ! i" using Cons.prems by simp
      show "\<forall>j<Suc i. (pre @ [v]) ! j \<le> v"
        using Cons.prems True by (auto simp: nth_append less_Suc_eq intro: less_imp_le order_trans)
      show "\<forall>j<i. (pre @ [v]) ! j < v"
        using Cons.prems True by (auto simp: nth_append intro: le_less_trans)
    qed
    with True show ?thesis by simp
  next
    case False
    have "argmax_loop vs (Suc i) best bv < length ((pre @ [v]) @ vs) \<and>
         (\<forall>j<length ((pre @ [v]) @ vs). ((pre @ [v]) @ vs) ! j \<le> ((pre @ [v]) @ vs) ! argmax_loop vs (Suc i) best bv) \<and>
         (\<forall>j<argmax_loop vs (Suc i) best bv. ((pre @ [v]) @ vs) ! j < ((pre @ [v]) @ vs) ! argmax_loop vs (Suc i) best bv)"
    proof (rule Cons.IH)
      show "Suc i = length (pre @ [v])" using Cons.prems by simp
      show "best < Suc i" using Cons.prems by simp
      show "bv = (pre @ [v]) ! best" using Cons.prems by (simp add: nth_append)
      show "\<forall>j<Suc i. (pre @ [v]) ! j \<le> bv"
        using Cons.prems False by (auto simp: nth_append less_Suc_eq)
      show "\<forall>j<best. (pre @ [v]) ! j < bv"
        using Cons.prems by (auto simp: nth_append)
    qed
    with False show ?thesis by simp
  qed
qed

lemma argmax_spec:
  assumes "xs \<noteq> []"
  shows "\<exists>r. argmax xs = Some r \<and> r < length xs \<and>
           (\<forall>j<length xs. xs ! j \<le> xs ! r) \<and> (\<forall>j<r. xs ! j < xs ! r)"
proof -
  from assms obtain v vs where xs: "xs = v # vs" by (cases xs) auto
  have "argmax_loop vs 1 0 v < length ([v] @ vs) \<and>
         (\<forall>j<length ([v] @ vs). ([v] @ vs) ! j \<le> ([v] @ vs) ! argmax_loop vs 1 0 v) \<and>
         (\<forall>j<argmax_loop vs 1 0 v. ([v] @ vs) ! j < ([v] @ vs) ! argmax_loop vs 1 0 v)"
    by (rule argmax_loop_spec) simp_all
  with xs show ?thesis by simp
qed

lemma vmap_argmax_Some:
  assumes "\<forall>p\<in>set out. length p = C" and "0 < C"
  shows "\<exists>preds. vmap argmax out = Some preds \<and> length preds = length out \<and>
           (\<forall>i<length out. preds ! i < C)"
proof -
  have ex: "\<forall>p\<in>set out. \<exists>v. argmax p = Some v"
  proof
    fix p assume "p \<in> set out"
    with assms have "p \<noteq> []" by auto
    from argmax_spec [OF this] show "\<exists>v. argmax p = Some v" by blast
  qed
  from vmap_Some [OF ex] obtain preds where preds: "vmap argmax out = Some preds"
    "length preds = length out" "\<forall>b<length out. argmax (out ! b) = Some (preds ! b)" by blast
  have "\<forall>i<length out. preds ! i < C"
  proof (intro allI impI)
    fix i assume i: "i < length out"
    then have len: "length (out ! i) = C" using assms(1) by simp
    with assms(2) have "out ! i \<noteq> []" by auto
    from argmax_spec [OF this] preds(3) i len show "preds ! i < C" by auto
  qed
  with preds show ?thesis by blast
qed

section \<open>One-hot rows\<close>

lemma one_hot_length: "length (one_hot x n) = n"
  by (simp add: one_hot_def)

lemma one_hot_nth: "j < n \<Longrightarrow> one_hot x n ! j = (if j = x then 1 else 0)"
  by (auto simp: one_hot_def)

lemma argmax_one_hot:
  assumes "L < n"
  shows "argmax (one_hot L n) = Some L"
proof -
  have "one_hot L n \<noteq> []" using assms by (auto simp: one_hot_def)
  from argmax_spec [OF this] obtain r where r: "argmax (one_hot L n) = Some r" "r < n"
    and ge: "\<forall>j<n. one_hot L n ! j \<le> one_hot L n ! r"
    and lt: "\<forall>j<r. one_hot L n ! j < one_hot L n ! r"
    by (auto simp: one_hot_length)
  have "r = L"
  proof (rule ccontr)
    assume "r \<noteq> L"
    with r have "one_hot L n ! r = 0" by (simp add: one_hot_nth)
    moreover have "one_hot L n ! L = 1" using assms by (simp add: one_hot_nth)
    ultimately show False using ge assms by fastforce
  qed
  with r show ?thesis by simp
qed

lemma argmax_y_1hot: "\<forall>l\<in>set y. l < 10 \<Longrightarrow> vmap argmax (y_1hot y) = Some y"
  by (induction y) (simp_all add: y_1hot_def argmax_one_hot)

text \<open>
  Claim C6. For every label \<open>L\<close> in \<open>[0,9]\<close> the one-hot row of \<open>L\<close> has ten entries,
  entry \<open>L\<close> is 1 and every other entry is 0, and arg-max of the row returns \<open>L\<close>:
  one-hot encoding followed by arg-max is the identity on \<open>[0,9]\<close>, also row by row on an
  array of such labels.
\<close>

theorem one_hot_argmax_identity:
  assumes "L < 10" and "\<forall>l\<in>set y. l < 10"
  shows "length (one_hot L 10) = 10 \<and>
         (\<forall>j<10. one_hot L 10 ! j = (if j = L then 1 else 0)) \<and>
         argmax (one_hot L 10) = Some L \<and>
         vmap argmax (y_1hot y) = Some y"
  using assms by (simp add: one_hot_length one_hot_nth argmax_one_hot argmax_y_1hot)

theorem one_hot_argmax_identity_witness:
  "(3::nat) < 10 \<and> length (one_hot 3 10) = 10 \<and>
   one_hot 3 10 ! 3 = 1 \<and> one_hot 3 10 ! 4 = 0 \<and>
   argmax (one_hot 3 10) = Some 3 \<and>
   vmap argmax (y_1hot [5, 0, 9]) = Some [5, 0, 9]"
  using one_hot_argmax_identity [of 3 "[5, 0, 9]"] by simp

section \<open>The forward pass\<close>

lemma matmul_plus_Some:
  assumes "is_matrix r c W" "is_vector r b" "length x = c"
  shows "\<exists>h. matmul_plus W x b = Some h \<and> length h = r"
proof -
  from assms(1) obtain m where W: "W = Mat m" "length m = r" "list_all (\<lambda>row. length row = c) m"
    by (cases W) (auto simp: is_matrix_def)
  from assms(2) obtain v where b: "b = Vec v" "length v = r"
    by (cases b) (auto simp: is_vector_def)
  from W b assms(3) show ?thesis by (simp add: matmul_def vadd_def)
qed

lemma linear_layer_Some:
  assumes "refers_to (is_matrix r c) W" "refers_to (is_vector r) b" "length x = c"
  shows "\<exists>h. linear_layer x W b = Some h \<and> length h = r"
proof -
  from assms(1) obtain w where w: "value_of W = Some w" "is_matrix r c w"
    by (auto simp: refers_to_def split: option.splits)
  from assms(2) obtain v where v: "value_of b = Some v" "is_vector r v"
    by (auto simp: refers_to_def split: option.splits)
  from matmul_plus_Some [OF w(2) v(2) assms(3)] w(1) v(1) show ?thesis
    by (simp add: linear_layer_def)
qed

lemma SimpleNetwork_call_Some:
  assumes "has_shape self n h c" "length x = n"
  shows "\<exists>z. length z = c \<and> SimpleNetwork_call self x = Some (softmax_activation z)"
proof -
  from assms(1) have len: "length (weights self) = 2" "length (bias self) = 2"
    and s0: "refers_to (is_matrix h n) (weights self ! 0)" "refers_to (is_vector h) (bias self ! 0)"
    and s1: "refers_to (is_matrix c h) (weights self ! 1)" "refers_to (is_vector c) (bias self ! 1)"
    by (simp_all add: has_shape_def)
  from linear_layer_Some [OF s0 assms(2)] obtain h1
    where h1: "linear_layer x (weights self ! 0) (bias self ! 0) = Some h1" "length h1 = h" by blast
  have "length (relu_activation h1) = h" using h1 by (simp add: relu_activation_def)
  from linear_layer_Some [OF s1 this] obtain h3
    where h3: "linear_layer (relu_activation h1) (weights self ! 1) (bias self ! 1) = Some h3"
      "length h3 = c" by blast
  have "SimpleNetwork_call self x = Some (softmax_activation h3)"
    using len h1 h3 by (simp add: SimpleNetwork_call_def nth_opt_def)
  with h3 show ?thesis by blast
qed

lemma SimpleNetwork_call_positive:
  assumes "has_shape self n h c" "length x = n"
  shows "\<exists>p. SimpleNetwork_call self x = Some p \<and> length p = c \<and> (\<forall>v\<in>set p. 0 < v)"
proof -
  from SimpleNetwork_call_Some [OF assms] obtain z
    where "length z = c" "SimpleNetwork_call self x = Some (softmax_activation z)" by blast
  then show ?thesis
    using softmax_activation_pos [of _ z] by (auto simp: softmax_activation_length)
qed

lemma apply_Linear_Some:
  assumes "linear_shape i out W b" "length x = i"
  shows "\<exists>h. apply_layer (Linear W b) x = Some h \<and> length h = out"
  using assms by (simp add: linear_shape_def matmul_def vadd_def)

lemma SimpleNetwork_eqx_call_Some:
  assumes "linear_shape n h W1 b1" "linear_shape h c W2 b2" "length x = n"
  shows "\<exists>z. length z = c \<and>
           SimpleNetwork_eqx_call (SimpleNetwork_eqx_init W1 b1 W2 b2) x = jax_nn_softmax z"
proof -
  from apply_Linear_Some [OF assms(1,3)] obtain h1
    where h1: "apply_layer (Linear W1 b1) x = Some h1" "length h1 = h" by blast
  have "length (map (\<lambda>v. max v 0) h1) = h" using h1 by simp
  from apply_Linear_Some [OF assms(2) this] obtain h3
    where h3: "apply_layer (Linear W2 b2) (map (\<lambda>v. max v 0) h1) = Some h3" "length h3 = c"
    by blast
  have nil: "SimpleNetwork_eqx_call [] = Some" by (rule ext) simp
  have "SimpleNetwork_eqx_call (SimpleNetwork_eqx_init W1 b1 W2 b2) x = jax_nn_softmax h3"
    using h1(1) h3(1) by (simp add: SimpleNetwork_eqx_init_def nil del: apply_layer.simps(1))
  with h3 show ?thesis by blast
qed

lemma SimpleNetwork_eqx_call_positive:
  assumes "linear_shape n h W1 b1" "linear_shape h c W2 b2" "length x = n" "0 < c"
  shows "\<exists>p. SimpleNetwork_eqx_call (SimpleNetwork_eqx_init W1 b1 W2 b2) x = Some p \<and>
           length p = c \<and> (\<forall>v\<in>set p. 0 < v)"
proof -
  from SimpleNetwork_eqx_call_Some [OF assms(1,2,3)] obtain z where z: "length z = c"
    "SimpleNetwork_eqx_call (SimpleNetwork_eqx_init W1 b1 W2 b2) x = jax_nn_softmax z" by blast
  with assms(4) have "z \<noteq> []" by auto
  from jax_nn_softmax_Some [OF this] z show ?thesis by auto
qed

lemma SimpleNetwork_init_shape:
  assumes "split key 4 = [key1, key2, key3, key4]"
    and "\<And>k r c. length (normal_matrix k r c) = r \<and>
                   list_all (\<lambda>row. length row = c) (normal_matrix k r c)"
    and "\<And>k n. length (normal_vector k n) = n"
  shows "\<exists>net. SimpleNetwork_init split normal_matrix normal_vector n h c key = Some net \<and>
           has_shape net n h c"
  using assms
  by (simp add: SimpleNetwork_init_def has_shape_def refers_to_def is_matrix_def is_vector_def
      list_all_iff)

text \<open>
  Claim C2. The soft-max output of the classifier is a probability vector of ten
  entries: every entry is at least 0 and the entries sum to 1, in exact real arithmetic.
  This holds for \<^verbatim>\<open>softmax_activation\<close> on any ten logits, for the output of the
  hand-written network and for the output of the network built from library layers, on
  every input vector of the input size.
\<close>

theorem classifier_output_is_probability_vector:
  assumes "length z = 10"
    and "has_shape self n h 10" and "linear_shape n h W1 b1" and "linear_shape h 10 W2 b2"
    and "length x = n"
  shows "(length (softmax_activation z) = 10 \<and> (\<forall>v\<in>set (softmax_activation z). 0 \<le> v) \<and>
          sum_list (softmax_activation z) = 1) \<and>
         (\<exists>p. SimpleNetwork_call self x = Some p \<and>
              length p = 10 \<and> (\<forall>v\<in>set p. 0 \<le> v) \<and> sum_list p = 1) \<and>
         (\<exists>p. SimpleNetwork_eqx_call (SimpleNetwork_eqx_init W1 b1 W2 b2) x = Some p \<and>
              length p = 10 \<and> (\<forall>v\<in>set p. 0 \<le> v) \<and> sum_list p = 1)"
proof -
  have prob: "length (softmax_activation u) = 10 \<and> (\<forall>v\<in>set (softmax_activation u). 0 \<le> v) \<and>
          sum_list (softmax_activation u) = 1" if "length u = 10" for u
  proof -
    from that have "u \<noteq> []" by auto
    then show ?thesis
      using that softmax_activation_pos [of _ u] softmax_activation_sum [of u]
      by (auto simp: softmax_activation_length intro: less_imp_le)
  qed
  from SimpleNetwork_call_Some [OF assms(2,5)] obtain u
    where u: "length u = 10" "SimpleNetwork_call self x = Some (softmax_activation u)" by blast
  from SimpleNetwork_eqx_call_Some [OF assms(3,4,5)] obtain w
    where w: "length w = 10"
      "SimpleNetwork_eqx_call (SimpleNetwork_eqx_init W1 b1 W2 b2) x = jax_nn_softmax w" by blast
  from w(1) have "w \<noteq> []" by auto
  from jax_nn_softmax_Some [OF this] w obtain p
    where p: "SimpleNetwork_eqx_call (SimpleNetwork_eqx_init W1 b1 W2 b2) x = Some p"
      "length p = 10" "\<forall>v\<in>set p. 0 < v" "sum_list p = 1" by auto
  from p have "\<exists>p. SimpleNetwork_eqx_call (SimpleNetwork_eqx_init W1 b1 W2 b2) x = Some p \<and>
              length p = 10 \<and> (\<forall>v\<in>set p. 0 \<le> v) \<and> sum_list p = 1"
    by (auto intro: less_imp_le)
  with prob [OF assms(1)] prob [OF u(1)] u(2) show ?thesis by simp
qed

text \<open>
  The hypotheses of the theorem hold for a network with one input and one hidden unit.
\<close>

theorem classifier_output_is_probability_vector_witness:
  "has_shape \<lparr>weights = [Concrete (Mat [[1]]), Concrete (Mat (replicate 10 [1]))],
     bias = [Concrete (Vec [0]), Concrete (Vec (replicate 10 0))]\<rparr> 1 1 10 \<and>
   linear_shape 1 1 [[1]] [0] \<and> linear_shape 1 10 (replicate 10 [1]) (replicate 10 0) \<and>
   sum_list (softmax_activation (replicate 10 0)) = 1 \<and>
   (\<exists>p. SimpleNetwork_call
          \<lparr>weights = [Concrete (Mat [[1]]), Concrete (Mat (replicate 10 [1]))],
     bias = [Concrete (Vec [0]), Concrete (Vec (replicate 10 0))]\<rparr> [1] = Some p \<and>
        length p = 10 \<and> (\<forall>v\<in>set p. 0 \<le> v) \<and> sum_list p = 1) \<and>
   (\<exists>p. SimpleNetwork_eqx_call
          (SimpleNetwork_eqx_init [[1]] [0] (replicate 10 [1]) (replicate 10 0)) [1] = Some p \<and>
        length p = 10 \<and> (\<forall>v\<in>set p. 0 \<le> v) \<and> sum_list p = 1)"
proof -
  have s: "has_shape \<lparr>weights = [Concrete (Mat [[1]]), Concrete (Mat (replicate 10 [1]))],
                       bias = [Concrete (Vec [0]), Concrete (Vec (replicate 10 0))]\<rparr> 1 1 10"
    by (simp add: has_shape_def refers_to_def is_matrix_def is_vector_def list_all_iff)
  have l1: "linear_shape 1 1 [[1]] [0]" by (simp add: linear_shape_def)
  have l2: "linear_shape 1 10 (replicate 10 [1]) (replicate 10 0)"
    by (simp add: linear_shape_def list_all_iff)
  have z: "length (replicate 10 (0::real)) = 10" by simp
  have x: "length [1::real] = 1" by simp
  from classifier_output_is_probability_vector [OF z s l1 l2 x] s l1 l2
  show ?thesis by blast
qed

section \<open>The loss\<close>

lemma cross_entropy_value:
  assumes "length P = B" and "length y = B"
    and P: "\<forall>row\<in>set P. length row = C \<and> (\<forall>v\<in>set row. 0 < v)"
    and y: "\<forall>row\<in>set y. length row = C"
    and "0 < B" and "0 < C"
  shows "do { l \<leftarrow> np_log P; yl \<leftarrow> np_mul y l; m \<leftarrow> np_mean yl; Some (- m) } =
         Some (- (1 / (real B * real C)) * (\<Sum>b<B. \<Sum>c<C. y ! b ! c * ln (P ! b ! c)))"
proof -
  let ?L = "map (map ln) P"
  let ?M = "map2 (map2 (*)) y ?L"
  have log: "np_log P = Some ?L"
    using P by (simp add: np_log_def list_all_iff)
  have "list_all2 (\<lambda>r s. length r = length s) y ?L"
    using assms(1,2) P y by (simp add: list_all2_conv_all_nth)
  then have mul: "np_mul y ?L = Some ?M" by (simp add: np_mul_def)
  have lenM: "length ?M = B" using assms(1,2) by simp
  have rows: "\<forall>row\<in>set ?M. length row = C"
  proof
    fix row assume "row \<in> set ?M"
    then obtain b where b: "b < B" "row = ?M ! b"
      using lenM by (metis in_set_conv_nth)
    then show "length row = C" using assms(1,2) P y by simp
  qed
  have entry: "?M ! b ! c = y ! b ! c * ln (P ! b ! c)" if "b < B" "c < C" for b c
    using that assms(1,2) P y by simp
  have "(\<Sum>b<B. \<Sum>c<C. ?M ! b ! c) = (\<Sum>b<B. \<Sum>c<C. y ! b ! c * ln (P ! b ! c))"
    by (intro sum.cong refl) (simp add: entry)
  with np_mean_rect [OF lenM rows assms(5,6)] log mul show ?thesis by simp
qed

lemma batch_loss_value:
  assumes f: "\<forall>r\<in>set x. \<exists>p. f r = Some p \<and> (length p = C \<and> (\<forall>v\<in>set p. 0 < v))"
    and "length x = B" and "length y = B" and "0 < B" and "0 < C"
    and y: "\<forall>row\<in>set y. length row = C"
  shows "\<exists>P. vmap f x = Some P \<and>
           do { l \<leftarrow> np_log P; yl \<leftarrow> np_mul y l; m \<leftarrow> np_mean yl; Some (- m) } =
           Some (- (1 / (real B * real C)) * (\<Sum>b<B. \<Sum>c<C. y ! b ! c * ln (P ! b ! c)))"
proof -
  from vmap_Some_all [OF f] obtain P where P: "vmap f x = Some P" "length P = length x"
    "\<forall>row\<in>set P. length row = C \<and> (\<forall>v\<in>set row. 0 < v)" by blast
  have "length P = B" using P(2) assms(2) by simp
  from cross_entropy_value [OF this assms(3) P(3) y assms(4,5)] P(1) show ?thesis by blast
qed

lemma SimpleNetwork_call_Tracer:
  "SimpleNetwork_call (model\<lparr>weights := [Tracer w0, Tracer w1], bias := [Tracer b0, Tracer b1]\<rparr>) =
   SimpleNetwork_call \<lparr>weights = [Concrete w0, Concrete w1], bias = [Concrete b0, Concrete b1]\<rparr>"
  by (rule ext) (simp add: SimpleNetwork_call_def nth_opt_def linear_layer_def)

lemma loss_result:
  assumes params: "4 \<le> length model_params"
      "is_matrix h n (model_params ! 0)" "is_matrix C h (model_params ! 1)"
      "is_vector h (model_params ! 2)" "is_vector C (model_params ! 3)"
    and batch: "length x = B" "length y = B" "0 < B" "0 < C"
      "\<forall>r\<in>set x. length r = n" "\<forall>r\<in>set y. length r = C"
  shows "\<exists>P. vmap (SimpleNetwork_call
                    \<lparr>weights = [Concrete (model_params ! 0), Concrete (model_params ! 1)],
                      bias = [Concrete (model_params ! 2), Concrete (model_params ! 3)]\<rparr>) x =
                Some P \<and>
           loss model_params model x y =
             Some (- (1 / (real B * real C)) * (\<Sum>b<B. \<Sum>c<C. y ! b ! c * ln (P ! b ! c)),
                   model\<lparr>weights := [LeakedTracer, LeakedTracer],
                          bias := [LeakedTracer, LeakedTracer]\<rparr>)"
proof -
  let ?m = "\<lparr>weights = [Concrete (model_params ! 0), Concrete (model_params ! 1)],
             bias = [Concrete (model_params ! 2), Concrete (model_params ! 3)]\<rparr>"
  have shape: "has_shape ?m n h C" using params by (simp add: has_shape_def refers_to_def)
  have "\<forall>r\<in>set x. \<exists>p. SimpleNetwork_call ?m r = Some p \<and> (length p = C \<and> (\<forall>v\<in>set p. 0 < v))"
    using batch(5) SimpleNetwork_call_positive [OF shape] by blast
  from batch_loss_value [OF this batch(1,2,3,4,6)] obtain P
    where P: "vmap (SimpleNetwork_call ?m) x = Some P"
      "do { l \<leftarrow> np_log P; yl \<leftarrow> np_mul y l; m \<leftarrow> np_mean yl; Some (- m) } =
       Some (- (1 / (real B * real C)) * (\<Sum>b<B. \<Sum>c<C. y ! b ! c * ln (P ! b ! c)))"
    by auto
  from P(2) obtain l yl m where s: "np_log P = Some l" "np_mul y l = Some yl" "np_mean yl = Some m"
    "- m = - (1 / (real B * real C)) * (\<Sum>b<B. \<Sum>c<C. y ! b ! c * ln (P ! b ! c))"
    by (auto split: bind_splits)
  have "0 < length model_params" "1 < length model_params" "2 < length model_params"
    "3 < length model_params" using params(1) by arith+
  then have idx: "nth_opt model_params 0 = Some (model_params ! 0)"
    "nth_opt model_params 1 = Some (model_params ! 1)"
    "nth_opt model_params 2 = Some (model_params ! 2)"
    "nth_opt model_params 3 = Some (model_params ! 3)"
    unfolding nth_opt_def by (simp_all only: if_True)
  have "loss model_params model x y =
          Some (- (1 / (real B * real C)) * (\<Sum>b<B. \<Sum>c<C. y ! b ! c * ln (P ! b ! c)),
                model\<lparr>weights := [LeakedTracer, LeakedTracer],
                       bias := [LeakedTracer, LeakedTracer]\<rparr>)"
    unfolding loss_def idx using P(1) s by (simp add: Let_def SimpleNetwork_call_Tracer)
  with P(1) show ?thesis by blast
qed

text \<open>
  Claim C1. For a batch \<open>x\<close> of shape \<open>[B,784]\<close> and targets \<open>y\<close> of shape \<open>[B,10]\<close> the
  loss is the negative mean of \<open>y * log(prediction)\<close> over the batch axis and the class
  axis together: minus the sum over all \<open>B * 10\<close> entries, divided by \<open>B * 10\<close> and
  not by \<open>B\<close>. \<open>P\<close> is the matrix of predictions, one row for each row of \<open>x\<close>: in the
  hand-written notebook those of the network that holds the arrays of the parameter
  list. The statement covers the loss of both perceptron notebooks; the hand-written one
  also leaves the model object with leaked tracers in its fields.
\<close>

theorem loss_is_mean_over_batch_and_classes:
  assumes params: "length model_params = 4"
      "is_matrix h 784 (model_params ! 0)" "is_matrix 10 h (model_params ! 1)"
      "is_vector h (model_params ! 2)" "is_vector 10 (model_params ! 3)"
    and layers: "linear_shape 784 h W1 b1" "linear_shape h 10 W2 b2"
    and batch: "length x = B" "length y = B" "0 < B"
      "\<forall>r\<in>set x. length r = 784" "\<forall>r\<in>set y. length r = 10"
  shows "(\<exists>P. vmap (SimpleNetwork_call
                     \<lparr>weights = [Concrete (model_params ! 0), Concrete (model_params ! 1)],
                       bias = [Concrete (model_params ! 2), Concrete (model_params ! 3)]\<rparr>) x =
                 Some P \<and>
            loss model_params model x y =
              Some (- (1 / (real B * 10)) * (\<Sum>b<B. \<Sum>c<10. y ! b ! c * ln (P ! b ! c)),
                    model\<lparr>weights := [LeakedTracer, LeakedTracer],
                           bias := [LeakedTracer, LeakedTracer]\<rparr>)) \<and>
         (\<exists>P. vmap (SimpleNetwork_eqx_call (SimpleNetwork_eqx_init W1 b1 W2 b2)) x = Some P \<and>
            loss_eqx (SimpleNetwork_eqx_init W1 b1 W2 b2) x y =
              Some (- (1 / (real B * 10)) * (\<Sum>b<B. \<Sum>c<10. y ! b ! c * ln (P ! b ! c))))"
proof
  have four: "4 \<le> length model_params" using params(1) by simp
  from loss_result [OF four params(2-5) batch(1,2,3) _ batch(4,5), of model]
  show "\<exists>P. vmap (SimpleNetwork_call
                     \<lparr>weights = [Concrete (model_params ! 0), Concrete (model_params ! 1)],
                       bias = [Concrete (model_params ! 2), Concrete (model_params ! 3)]\<rparr>) x =
                 Some P \<and>
            loss model_params model x y =
              Some (- (1 / (real B * 10)) * (\<Sum>b<B. \<Sum>c<10. y ! b ! c * ln (P ! b ! c)),
                    model\<lparr>weights := [LeakedTracer, LeakedTracer],
                           bias := [LeakedTracer, LeakedTracer]\<rparr>)"
    by simp
next
  let ?f = "SimpleNetwork_eqx_call (SimpleNetwork_eqx_init W1 b1 W2 b2)"
  have "\<forall>r\<in>set x. \<exists>p. ?f r = Some p \<and> (length p = 10 \<and> (\<forall>v\<in>set p. 0 < v))"
    using batch(4) SimpleNetwork_eqx_call_positive [OF layers] by simp
  from batch_loss_value [OF this batch(1,2,3) _ batch(5)] obtain P
    where P: "vmap ?f x = Some P"
      "do { l \<leftarrow> np_log P; yl \<leftarrow> np_mul y l; m \<leftarrow> np_mean yl; Some (- m) } =
       Some (- (1 / (real B * 10)) * (\<Sum>b<B. \<Sum>c<10. y ! b ! c * ln (P ! b ! c)))"
    by auto
  then have "loss_eqx (SimpleNetwork_eqx_init W1 b1 W2 b2) x y =
          Some (- (1 / (real B * 10)) * (\<Sum>b<B. \<Sum>c<10. y ! b ! c * ln (P ! b ! c)))"
    by (simp add: loss_eqx_def)
  with P(1) show "\<exists>P. vmap ?f x = Some P \<and>
            loss_eqx (SimpleNetwork_eqx_init W1 b1 W2 b2) x y =
              Some (- (1 / (real B * 10)) * (\<Sum>b<B. \<Sum>c<10. y ! b ! c * ln (P ! b ! c)))"
    by blast
qed

text \<open>The hypotheses hold for networks with one hidden unit and a batch of one image.\<close>

theorem loss_is_mean_over_batch_and_classes_witness:
  "linear_shape 784 1 [replicate 784 0] [0] \<and> linear_shape 1 10 (replicate 10 [0]) (replicate 10 0) \<and>
   (\<exists>P. vmap (SimpleNetwork_call
               \<lparr>weights = [Concrete (Mat [replicate 784 0]), Concrete (Mat (replicate 10 [0]))],
                 bias = [Concrete (Vec [0]), Concrete (Vec (replicate 10 0))]\<rparr>)
           [replicate 784 0] = Some P \<and>
      loss [Mat [replicate 784 0], Mat (replicate 10 [0]), Vec [0], Vec (replicate 10 0)]
        \<lparr>weights = [], bias = []\<rparr> [replicate 784 0] [one_hot 3 10] =
      Some (- (1 / (real 1 * 10)) * (\<Sum>b<1. \<Sum>c<10. [one_hot 3 10] ! b ! c * ln (P ! b ! c)),
            \<lparr>weights = [LeakedTracer, LeakedTracer], bias = [LeakedTracer, LeakedTracer]\<rparr>)) \<and>
   (\<exists>P. vmap (SimpleNetwork_eqx_call
           (SimpleNetwork_eqx_init [replicate 784 0] [0] (replicate 10 [0]) (replicate 10 0)))
           [replicate 784 0] = Some P \<and>
      loss_eqx (SimpleNetwork_eqx_init [replicate 784 0] [0] (replicate 10 [0]) (replicate 10 0))
        [replicate 784 0] [one_hot 3 10] =
      Some (- (1 / (real 1 * 10)) * (\<Sum>b<1. \<Sum>c<10. [one_hot 3 10] ! b ! c * ln (P ! b ! c))))"
proof -
  let ?ps = "[Mat [replicate 784 0], Mat (replicate 10 [0]), Vec [0], Vec (replicate 10 0)]"
  have p: "length ?ps = 4" "is_matrix 1 784 (?ps ! 0)" "is_matrix 10 1 (?ps ! 1)"
    "is_vector 1 (?ps ! 2)" "is_vector 10 (?ps ! 3)"
    by (simp_all add: is_matrix_def is_vector_def list_all_iff)
  have l: "linear_shape 784 1 [replicate 784 0] [0]"
    "linear_shape 1 10 (replicate 10 [0]) (replicate 10 0)"
    by (simp_all add: linear_shape_def list_all_iff)
  have b: "length [replicate 784 (0::real)] = 1" "length [one_hot 3 10] = 1" "0 < (1::nat)"
    "\<forall>r\<in>set [replicate 784 (0::real)]. length r = 784" "\<forall>r\<in>set [one_hot 3 10]. length r = 10"
    by (simp_all add: one_hot_length)
  have m: "\<lparr>weights = [], bias = []\<rparr>\<lparr>weights := [LeakedTracer, LeakedTracer],
             bias := [LeakedTracer, LeakedTracer]\<rparr> =
           \<lparr>weights = [LeakedTracer, LeakedTracer], bias = [LeakedTracer, LeakedTracer]\<rparr>"
    "?ps ! 0 = Mat [replicate 784 0]" "?ps ! 1 = Mat (replicate 10 [0])"
    "?ps ! 2 = Vec [0]" "?ps ! 3 = Vec (replicate 10 0)"
    by simp_all
  from loss_is_mean_over_batch_and_classes [OF p l b, of "\<lparr>weights = [], bias = []\<rparr>"] l
  show ?thesis unfolding m by blast
qed

section \<open>The optimiser on a zero gradient\<close>









section \<open>Drawing without replacement\<close>

lemma choice_without_replacement:
  assumes perm: "mset (permutation key (arange N)) = mset (arange N)" and k: "n_draws \<le> N"
  shows "\<exists>inds. choice permutation key (arange N) n_draws = Some inds \<and>
           distinct inds \<and> length inds = n_draws \<and> card (set inds) = n_draws \<and>
           set inds \<subseteq> {..<N}"
proof (cases "n_draws = 0")
  case True
  then show ?thesis by (simp add: choice_def)
next
  case False
  let ?p = "permutation key (arange N)"
  have len: "length ?p = N"
    using mset_eq_length [OF perm] by (simp add: arange_def)
  have dist: "distinct ?p"
    using mset_eq_imp_distinct_iff [OF perm] by (simp add: arange_def)
  have sub: "set ?p = {..<N}"
    using mset_eq_setD [OF perm] by (simp add: arange_def atLeast0LessThan)
  have ne: "arange N \<noteq> []" using False k by (auto simp: arange_def)
  have res: "choice permutation key (arange N) n_draws = Some (take n_draws ?p)"
    using False k ne by (simp add: choice_def arange_def)
  have d: "distinct (take n_draws ?p)" using dist by (rule distinct_take)
  have l: "length (take n_draws ?p) = n_draws" using len k by simp
  have s: "set (take n_draws ?p) \<subseteq> {..<N}" using set_take_subset [of n_draws ?p] sub by simp
  from res d l s distinct_card [OF d] show ?thesis by simp
qed

text \<open>
  Claim C5. At every training step \<open>i\<close> and for every batch size that does not exceed the
  size of the pool, the drawn indices hold no duplicate and their number is the batch
  size. The pool is \<^verbatim>\<open>np.arange(60000)\<close> in the perceptron notebooks and
  \<^verbatim>\<open>np.arange(5421)\<close> in the notebook of the differential equation. The hypothesis is
  the contract of the library's \<^verbatim>\<open>jax.random.permutation\<close>: it returns a permutation of
  its argument.
\<close>

theorem batch_indices_without_duplicates:
  assumes "\<forall>k a. mset (permutation k a) = mset a"
  shows "(BATCH_SIZE \<le> 60000 \<longrightarrow>
            (\<exists>inds. train_inds permutation fold_in key BATCH_SIZE i = Some inds \<and>
               distinct inds \<and> length inds = BATCH_SIZE \<and> card (set inds) = BATCH_SIZE \<and>
               set inds \<subseteq> {..<60000})) \<and>
         (BATCH_SIZE \<le> 5421 \<longrightarrow>
            (\<exists>inds. ode_train_inds permutation fold_in key BATCH_SIZE i = Some inds \<and>
               distinct inds \<and> length inds = BATCH_SIZE \<and> card (set inds) = BATCH_SIZE \<and>
               set inds \<subseteq> {..<5421}))"
  using assms choice_without_replacement [of permutation _ _ BATCH_SIZE]
  by (simp add: train_inds_def ode_train_inds_def)

theorem batch_indices_without_duplicates_witness:
  "(\<exists>inds. train_inds (\<lambda>k a. rev a) (\<lambda>(k :: nat) i. k + i) 12345 32 7 = Some inds \<and>
       distinct inds \<and> length inds = 32 \<and> card (set inds) = 32 \<and> set inds \<subseteq> {..<60000}) \<and>
   (\<exists>inds. ode_train_inds (\<lambda>k a. rev a) (\<lambda>(k :: nat) i. k + i) 1234 32 7 = Some inds \<and>
       distinct inds \<and> length inds = 32 \<and> card (set inds) = 32 \<and> set inds \<subseteq> {..<5421})"
proof -
  have p: "\<forall>(k :: nat) a :: nat list. mset (rev a) = mset a" by simp
  from batch_indices_without_duplicates [OF p, of 32 "\<lambda>k i. k + i" 12345 7]
  have a: "\<exists>inds. train_inds (\<lambda>k a. rev a) (\<lambda>(k :: nat) i. k + i) 12345 32 7 = Some inds \<and>
       distinct inds \<and> length inds = 32 \<and> card (set inds) = 32 \<and> set inds \<subseteq> {..<60000}"
    by simp
  from batch_indices_without_duplicates [OF p, of 32 "\<lambda>k i. k + i" 1234 7]
  have b: "\<exists>inds. ode_train_inds (\<lambda>k a. rev a) (\<lambda>(k :: nat) i. k + i) 1234 32 7 = Some inds \<and>
       distinct inds \<and> length inds = 32 \<and> card (set inds) = 32 \<and> set inds \<subseteq> {..<5421}"
    by simp
  from a b show ?thesis by blast
qed

section \<open>Who writes the fields of the model\<close>

subsection \<open>The calls of the training cell, on the store\<close>

lemma loss_leaves_tracers:
  assumes "loss model_params model x y = Some (v, model')"
  shows "weights model' = [LeakedTracer, LeakedTracer]" "bias model' = [LeakedTracer, LeakedTracer]"
  using assms by (auto simp: loss_def Let_def split: bind_splits)

lemma call_loss_state:
  assumes "call_loss grad_of st x y = Some (v, g, st1)"
  shows "\<exists>slots ps model model'. heap st (nn_params st) = Some slots \<and>
           vmap value_of slots = Some ps \<and> nn_object st = Some model \<and>
           loss ps model x y = Some (v, model') \<and> g = grad_of ps x y \<and>
           st1 = st\<lparr>heap := (heap st)(next_free st \<mapsto> [LeakedTracer, LeakedTracer],
                                      Suc (next_free st) \<mapsto> [LeakedTracer, LeakedTracer]),
                    next_free := Suc (Suc (next_free st)),
                    nn_weights := next_free st, nn_bias := Suc (next_free st)\<rparr>"
proof -
  from assms obtain slots ps model model' where s: "heap st (nn_params st) = Some slots"
    "vmap value_of slots = Some ps" "nn_object st = Some model"
    "loss ps model x y = Some (v, model')" "g = grad_of ps x y"
    and st1: "st1 = st\<lparr>heap := (heap st)(next_free st \<mapsto> weights model',
                                      Suc (next_free st) \<mapsto> bias model'),
                    next_free := Suc (Suc (next_free st)),
                    nn_weights := next_free st, nn_bias := Suc (next_free st)\<rparr>"
    by (auto simp: call_loss_def new_list_def Let_def split: bind_splits prod.splits)
  from s st1 loss_leaves_tracers [OF s(4)] show ?thesis by simp
qed

lemma call_optimiser_state:
  assumes "call_optimiser st a g learn_rate = Some (a', st2)"
  shows "a' = a \<and> (\<exists>slots slots'. heap st a = Some slots \<and>
           optimiser slots g learn_rate = Some slots' \<and>
           st2 = st\<lparr>heap := (heap st)(a \<mapsto> slots')\<rparr>)"
  using assms by (auto simp: call_optimiser_def split: bind_splits)

lemma store_trained_parameters_state:
  assumes "nn_params st < next_free st" "store_trained_parameters st = Some st3"
  shows "\<exists>ps. heap st (nn_params st) = Some ps \<and> 4 \<le> length ps \<and>
           st3 = st\<lparr>heap := (heap st)(next_free st \<mapsto> [ps ! 0, ps ! 1],
                                      Suc (next_free st) \<mapsto> [ps ! 2, ps ! 3]),
                    next_free := Suc (Suc (next_free st)),
                    nn_weights := next_free st, nn_bias := Suc (next_free st)\<rparr>"
  using assms
  by (auto simp: store_trained_parameters_def new_list_def item_def nth_opt_def Let_def
           split: bind_splits prod.splits if_splits)

lemma notebook_init_state:
  assumes "notebook_init net = Some st"
  shows "2 \<le> length (weights net) \<and> 2 \<le> length (bias net) \<and>
         st = \<lparr>heap = [0 \<mapsto> weights net, Suc 0 \<mapsto> bias net,
                        Suc (Suc 0) \<mapsto> [weights net ! 0, weights net ! 1, bias net ! 0, bias net ! 1]],
               next_free = Suc (Suc (Suc 0)), nn_weights = 0, nn_bias = Suc 0,
               nn_params = Suc (Suc 0), loss_log = []\<rparr>"
  using assms
  by (auto simp: notebook_init_def new_list_def item_def nth_opt_def Let_def
           split: bind_splits prod.splits if_splits)

lemma notebook_init_returns:
  assumes "2 \<le> length (weights net)" "2 \<le> length (bias net)"
  shows "\<exists>st. notebook_init net = Some st"
proof -
  have "0 < length (weights net)" "1 < length (weights net)"
    "0 < length (bias net)" "1 < length (bias net)" using assms by arith+
  then show ?thesis
    unfolding notebook_init_def new_list_def item_def nth_opt_def Let_def
    by (simp del: One_nat_def)
qed

lemma notebook_init_effect:
  assumes "notebook_init net = Some st"
  shows "unaliased st \<and> nn_object st = Some \<lparr>weights = weights net, bias = bias net\<rparr> \<and>
         heap st (nn_params st) =
           Some [weights net ! 0, weights net ! 1, bias net ! 0, bias net ! 1]"
  using notebook_init_state [OF assms] by (simp add: unaliased_def nn_object_def)

lemma train_step_effect:
  assumes "unaliased st" "train_step grad_of st x y = Some st'"
  shows "\<exists>loss_value grad st1 st2.
           call_loss grad_of st x y = Some (loss_value, grad, st1) \<and>
           call_optimiser st1 (nn_params st1) grad (Finite (1 / 10)) = Some (nn_params st, st2) \<and>
           st' = st2\<lparr>nn_params := nn_params st, loss_log := loss_log st @ [loss_value]\<rparr> \<and>
           nn_weights st1 = next_free st \<and> nn_bias st1 = Suc (next_free st) \<and>
           nn_object st1 =
             Some \<lparr>weights = [LeakedTracer, LeakedTracer], bias = [LeakedTracer, LeakedTracer]\<rparr> \<and>
           nn_params st1 = nn_params st \<and> (\<forall>a. a < next_free st \<longrightarrow> heap st1 a = heap st a) \<and>
           unaliased st1 \<and>
           nn_weights st2 = nn_weights st1 \<and> nn_bias st2 = nn_bias st1 \<and>
           nn_params st2 = nn_params st \<and> nn_object st2 = nn_object st1 \<and>
           (\<forall>a. a \<noteq> nn_params st \<longrightarrow> heap st2 a = heap st1 a) \<and>
           (\<exists>slots ps. heap st (nn_params st) = Some slots \<and> vmap value_of slots = Some ps \<and>
                       grad = grad_of ps x y \<and>
                       heap st2 (nn_params st) = optimiser slots grad (Finite (1 / 10))) \<and>
           unaliased st2"
proof -
  from assms(2) obtain loss_value grad st1 params st2
    where l: "call_loss grad_of st x y = Some (loss_value, grad, st1)"
      and o: "call_optimiser st1 (nn_params st1) grad (Finite (1 / 10)) = Some (params, st2)"
      and st': "st' = st2\<lparr>nn_params := params, loss_log := loss_log st2 @ [loss_value]\<rparr>"
    by (auto simp: train_step_def split: bind_splits prod.splits)
  from call_loss_state [OF l] obtain slots ps
    where s: "heap st (nn_params st) = Some slots" "vmap value_of slots = Some ps"
      "grad = grad_of ps x y"
      and st1: "st1 = st\<lparr>heap := (heap st)(next_free st \<mapsto> [LeakedTracer, LeakedTracer],
                                      Suc (next_free st) \<mapsto> [LeakedTracer, LeakedTracer]),
                    next_free := Suc (Suc (next_free st)),
                    nn_weights := next_free st, nn_bias := Suc (next_free st)\<rparr>"
    by blast
  from call_optimiser_state [OF o] obtain slots1 slots'
    where p: "params = nn_params st1" "heap st1 (nn_params st1) = Some slots1"
      "optimiser slots1 grad (Finite (1 / 10)) = Some slots'"
      and st2: "st2 = st1\<lparr>heap := (heap st1)(nn_params st1 \<mapsto> slots')\<rparr>"
    by blast
  have u: "nn_params st < next_free st" "nn_weights st < next_free st" "nn_bias st < next_free st"
    using assms(1) by (simp_all add: unaliased_def)
  have same: "slots1 = slots" using p(2) s(1) u(1) by (simp add: st1)
  have 1: "nn_weights st1 = next_free st" "nn_bias st1 = Suc (next_free st)"
    "nn_object st1 =
       Some \<lparr>weights = [LeakedTracer, LeakedTracer], bias = [LeakedTracer, LeakedTracer]\<rparr>"
    "nn_params st1 = nn_params st" "\<forall>a. a < next_free st \<longrightarrow> heap st1 a = heap st a"
    "unaliased st1" "loss_log st1 = loss_log st"
    using u by (simp_all add: st1 nn_object_def unaliased_def)
  have 2: "nn_weights st2 = nn_weights st1" "nn_bias st2 = nn_bias st1"
    "nn_params st2 = nn_params st"
    "nn_object st2 = nn_object st1" "\<forall>a. a \<noteq> nn_params st \<longrightarrow> heap st2 a = heap st1 a"
    "heap st2 (nn_params st) = optimiser slots grad (Finite (1 / 10))" "unaliased st2"
    "loss_log st2 = loss_log st"
    using u p(3) same by (simp_all add: st2 st1 nn_object_def unaliased_def)
  from l o st' p(1) s 1 2 show ?thesis by auto
qed

lemma train_step_leaves_tracers:
  assumes "unaliased st" "train_step grad_of st x y = Some st'"
  shows "nn_object st' =
           Some \<lparr>weights = [LeakedTracer, LeakedTracer], bias = [LeakedTracer, LeakedTracer]\<rparr> \<and>
         nn_params st' = nn_params st \<and> unaliased st'"
proof -
  from train_step_effect [OF assms] obtain loss_value st1 st2
    where "st' = st2\<lparr>nn_params := nn_params st, loss_log := loss_log st @ [loss_value]\<rparr>"
      "nn_object st1 =
         Some \<lparr>weights = [LeakedTracer, LeakedTracer], bias = [LeakedTracer, LeakedTracer]\<rparr>"
      "nn_object st2 = nn_object st1" "unaliased st2" "nn_params st2 = nn_params st"
    by blast
  then show ?thesis by (simp add: nn_object_def unaliased_def)
qed

lemma train_loop_leaves_tracers:
  assumes "unaliased st"
    "train_loop permutation fold_in grad_of x_train_flat y_train_1hot key st iters = Some st'"
  shows "unaliased st' \<and> nn_params st' = nn_params st \<and>
         (iters = [] \<and> st' = st \<or>
          nn_object st' =
            Some \<lparr>weights = [LeakedTracer, LeakedTracer], bias = [LeakedTracer, LeakedTracer]\<rparr>)"
  using assms
proof (induction iters arbitrary: st)
  case Nil
  then show ?case by simp
next
  case (Cons i rest)
  from Cons.prems(2) obtain x y st1
    where s: "train_step grad_of st x y = Some st1"
      "train_loop permutation fold_in grad_of x_train_flat y_train_1hot key st1 rest = Some st'"
    by (auto simp: train_iter_def split: bind_splits prod.splits)
  from train_step_leaves_tracers [OF Cons.prems(1) s(1)] Cons.IH [OF _ s(2)]
  show ?case by auto
qed

lemma store_trained_parameters_effect:
  assumes "unaliased st" "store_trained_parameters st = Some st3"
  shows "(\<exists>ps. heap st (nn_params st) = Some ps \<and> 4 \<le> length ps \<and>
               nn_object st3 = Some \<lparr>weights = [ps ! 0, ps ! 1], bias = [ps ! 2, ps ! 3]\<rparr>) \<and>
         nn_weights st3 = next_free st \<and> nn_bias st3 = Suc (next_free st) \<and>
         nn_params st3 = nn_params st \<and> (\<forall>a. a < next_free st \<longrightarrow> heap st3 a = heap st a) \<and>
         unaliased st3"
proof -
  have u: "nn_params st < next_free st" using assms(1) by (simp add: unaliased_def)
  from store_trained_parameters_state [OF u assms(2)] obtain ps
    where "heap st (nn_params st) = Some ps" "4 \<le> length ps"
      "st3 = st\<lparr>heap := (heap st)(next_free st \<mapsto> [ps ! 0, ps ! 1],
                                    Suc (next_free st) \<mapsto> [ps ! 2, ps ! 3]),
                next_free := Suc (Suc (next_free st)),
                nn_weights := next_free st, nn_bias := Suc (next_free st)\<rparr>"
    by blast
  with u show ?thesis by (simp add: nn_object_def unaliased_def)
qed

lemma store_trained_parameters_returns:
  assumes "nn_params st < next_free st" "heap st (nn_params st) = Some ps" "4 \<le> length ps"
  shows "\<exists>st3. store_trained_parameters st = Some st3"
proof -
  have "0 < length ps" "1 < length ps" "2 < length ps" "3 < length ps" using assms(3) by arith+
  then show ?thesis
    using assms(1,2)
    unfolding store_trained_parameters_def new_list_def item_def nth_opt_def Let_def
    by (simp del: One_nat_def)
qed

lemma make_step_effect:
  assumes "make_step optim_update grad_of model opt_state X Y = Some (model', opt_state', v)"
  shows "loss_eqx model X Y = Some v \<and>
         apply_updates model (fst (optim_update (grad_of model X Y) opt_state model)) =
           Some model' \<and>
         opt_state' = snd (optim_update (grad_of model X Y) opt_state model)"
  using assms by (auto simp: make_step_def Let_def split: bind_splits prod.splits)

lemma training_cell_result:
  assumes "training_cell permutation fold_in grad_of x_train_flat y_train_1hot key net TRAIN_ITERS =
             Some st"
  shows "unaliased st \<and>
         (\<exists>ps. heap st (nn_params st) = Some ps \<and> 4 \<le> length ps \<and>
               nn_object st = Some \<lparr>weights = [ps ! 0, ps ! 1], bias = [ps ! 2, ps ! 3]\<rparr>)"
proof -
  from assms obtain st0 st1 where s: "notebook_init net = Some st0"
    "train_loop permutation fold_in grad_of x_train_flat y_train_1hot key st0 [0..<TRAIN_ITERS] =
       Some st1"
    "store_trained_parameters st1 = Some st"
    by (auto simp: training_cell_def split: bind_splits)
  from notebook_init_effect [OF s(1)] have "unaliased st0" by simp
  from train_loop_leaves_tracers [OF this s(2)] have u: "unaliased st1" by simp
  from store_trained_parameters_effect [OF u s(3)] obtain ps
    where p: "heap st1 (nn_params st1) = Some ps" "4 \<le> length ps"
      "nn_object st = Some \<lparr>weights = [ps ! 0, ps ! 1], bias = [ps ! 2, ps ! 3]\<rparr>"
      "nn_params st = nn_params st1" "\<forall>a. a < next_free st1 \<longrightarrow> heap st a = heap st1 a"
      "unaliased st"
    by blast
  from u have "nn_params st1 < next_free st1" by (simp add: unaliased_def)
  with p show ?thesis by simp
qed

subsection \<open>A run on a small network\<close>

text \<open>
  One input, one hidden unit, two classes: weights \<open>[[1]]\<close> and \<open>[[0],[0]]\<close>, zero biases,
  the input 1 and the label row \<open>[1, 0]\<close>. The hidden unit is 1, both logits are 0 and
  both probabilities \<open>1/2\<close>, so the loss is \<open>ln 2 / 2\<close>; its gradient is zero for the
  first layer and \<open>[[-1/4],[1/4]]\<close>, \<open>[-1/4, 1/4]\<close> for the second.
\<close>

lemma example_loss:
  "loss [Mat [[1]], Mat [[0], [0]], Vec [0], Vec [0, 0]] model [[1]] [[1, 0]] =
   Some (ln 2 / 2,
         model\<lparr>weights := [LeakedTracer, LeakedTracer], bias := [LeakedTracer, LeakedTracer]\<rparr>)"
  by (simp add: loss_def nth_opt_def Let_def SimpleNetwork_call_def linear_layer_def matmul_def
      vadd_def relu_activation_def softmax_activation_def np_log_def np_mul_def np_mean_def ln_div)

lemma example_optimiser:
  "optimiser [Concrete (Mat [[1]]), Concrete (Mat [[0], [0]]), Concrete (Vec [0]),
              Concrete (Vec [0, 0])]
     [Mat [[0]], Mat [[- (1 / 4)], [1 / 4]], Vec [0], Vec [- (1 / 4), 1 / 4]] (Finite (1 / 10)) =
   Some [Concrete (Mat [[1]]), Concrete (Mat [[1 / 40], [- (1 / 40)]]), Concrete (Vec [0]),
         Concrete (Vec [1 / 40, - (1 / 40)])]"
  by (simp add: optimiser_def nth_opt_def stored_def)

lemma example_loss_eqx:
  "loss_eqx (SimpleNetwork_eqx_init [[1]] [0] [[0], [0]] [0, 0]) [[1]] [[1, 0]] = Some (ln 2 / 2)"
  by (simp add: loss_eqx_def SimpleNetwork_eqx_init_def matmul_def vadd_def jax_nn_softmax_def
      np_log_def np_mul_def np_mean_def ln_div Let_def)

lemma example_make_step:
  "make_step
     (\<lambda>grad opt_state model.
        ([Linear [[0]] [0], Relu, Linear [[1 / 40], [- (1 / 40)]] [1 / 40, - (1 / 40)], Softmax],
         Suc opt_state))
     (\<lambda>model X Y. [Linear [[0]] [0], Relu, Linear [[- (1 / 4)], [1 / 4]] [- (1 / 4), 1 / 4], Softmax])
     (SimpleNetwork_eqx_init [[1]] [0] [[0], [0]] [0, 0]) 0 [[1]] [[1, 0]] =
   Some ([Linear [[1]] [0], Relu, Linear [[1 / 40], [- (1 / 40)]] [1 / 40, - (1 / 40)], Softmax],
         Suc 0, ln 2 / 2)"
  by (simp add: make_step_def example_loss_eqx)
     (simp add: SimpleNetwork_eqx_init_def madd_def vadd_def)

lemma example_notebook_init:
  "notebook_init \<lparr>weights = [Concrete (Mat [[1]]), Concrete (Mat [[0], [0]])],
                  bias = [Concrete (Vec [0]), Concrete (Vec [0, 0])]\<rparr> =
   Some \<lparr>heap = [0 \<mapsto> [Concrete (Mat [[1]]), Concrete (Mat [[0], [0]])],
                 Suc 0 \<mapsto> [Concrete (Vec [0]), Concrete (Vec [0, 0])],
                 Suc (Suc 0) \<mapsto> [Concrete (Mat [[1]]), Concrete (Mat [[0], [0]]),
                                      Concrete (Vec [0]), Concrete (Vec [0, 0])]],
         next_free = Suc (Suc (Suc 0)), nn_weights = 0, nn_bias = Suc 0,
         nn_params = Suc (Suc 0), loss_log = []\<rparr>"
  by (simp add: notebook_init_def new_list_def item_def nth_opt_def Let_def)

lemma example_call_loss:
  assumes "notebook_init \<lparr>weights = [Concrete (Mat [[1]]), Concrete (Mat [[0], [0]])],
                          bias = [Concrete (Vec [0]), Concrete (Vec [0, 0])]\<rparr> = Some st"
  shows "call_loss (\<lambda>ps x y. g) st [[1]] [[1, 0]] =
         Some (ln 2 / 2, g,
               st\<lparr>heap := (heap st)(next_free st \<mapsto> [LeakedTracer, LeakedTracer],
                                      Suc (next_free st) \<mapsto> [LeakedTracer, LeakedTracer]),
                  next_free := Suc (Suc (next_free st)),
                  nn_weights := next_free st, nn_bias := Suc (next_free st)\<rparr>)"
proof -
  from assms example_notebook_init
  have st: "st = \<lparr>heap = [0 \<mapsto> [Concrete (Mat [[1]]), Concrete (Mat [[0], [0]])],
                           Suc 0 \<mapsto> [Concrete (Vec [0]), Concrete (Vec [0, 0])],
                           Suc (Suc 0) \<mapsto> [Concrete (Mat [[1]]), Concrete (Mat [[0], [0]]),
                                                Concrete (Vec [0]), Concrete (Vec [0, 0])]],
                   next_free = Suc (Suc (Suc 0)), nn_weights = 0, nn_bias = Suc 0,
                   nn_params = Suc (Suc 0), loss_log = []\<rparr>"
    by simp
  show ?thesis
    by (simp add: st call_loss_def nn_object_def example_loss new_list_def)
qed

lemma example_train_step:
  assumes "notebook_init \<lparr>weights = [Concrete (Mat [[1]]), Concrete (Mat [[0], [0]])],
                          bias = [Concrete (Vec [0]), Concrete (Vec [0, 0])]\<rparr> = Some st"
  shows "\<exists>st'. train_step
           (\<lambda>ps x y. [Mat [[0]], Mat [[- (1 / 4)], [1 / 4]], Vec [0], Vec [- (1 / 4), 1 / 4]])
           st [[1]] [[1, 0]] = Some st'"
proof -
  from assms example_notebook_init
  have st: "st = \<lparr>heap = [0 \<mapsto> [Concrete (Mat [[1]]), Concrete (Mat [[0], [0]])],
                           Suc 0 \<mapsto> [Concrete (Vec [0]), Concrete (Vec [0, 0])],
                           Suc (Suc 0) \<mapsto> [Concrete (Mat [[1]]), Concrete (Mat [[0], [0]]),
                                                Concrete (Vec [0]), Concrete (Vec [0, 0])]],
                   next_free = Suc (Suc (Suc 0)), nn_weights = 0, nn_bias = Suc 0,
                   nn_params = Suc (Suc 0), loss_log = []\<rparr>"
    by simp
  show ?thesis
    unfolding train_step_def example_call_loss [OF assms]
    by (simp add: st call_optimiser_def example_optimiser)
qed

subsection \<open>The loss call writes the fields\<close>

text \<open>
  Claim C3 says that nothing but the optimiser's update changes the parameter fields of
  the model, and the loss computation in particular does not. In the hand-written
  notebook it is the other way round. On the small network the call
  \<^verbatim>\<open>loss(nn_params,nn,x,y)\<close> returns the loss \<open>ln 2 / 2\<close> and leaves leaked tracers in
  \<^verbatim>\<open>nn.weights\<close> and \<^verbatim>\<open>nn.bias\<close>, where the arrays were, so that the object can no
  longer be called; the optimiser's update that follows changes the list \<^verbatim>\<open>nn_params\<close>
  and leaves the fields of the object as the loss call left them.
\<close>

theorem loss_call_overwrites_model_fields_counterexample:
  "\<exists>st st1 st2.
     notebook_init \<lparr>weights = [Concrete (Mat [[1]]), Concrete (Mat [[0], [0]])],
                    bias = [Concrete (Vec [0]), Concrete (Vec [0, 0])]\<rparr> = Some st \<and>
     nn_object st = Some \<lparr>weights = [Concrete (Mat [[1]]), Concrete (Mat [[0], [0]])],
                          bias = [Concrete (Vec [0]), Concrete (Vec [0, 0])]\<rparr> \<and>
     call_loss (\<lambda>ps x y. [Mat [[0]], Mat [[- (1 / 4)], [1 / 4]], Vec [0], Vec [- (1 / 4), 1 / 4]])
       st [[1]] [[1, 0]] =
       Some (ln 2 / 2, [Mat [[0]], Mat [[- (1 / 4)], [1 / 4]], Vec [0], Vec [- (1 / 4), 1 / 4]],
             st1) \<and>
     nn_object st1 =
       Some \<lparr>weights = [LeakedTracer, LeakedTracer], bias = [LeakedTracer, LeakedTracer]\<rparr> \<and>
     nn_object st1 \<noteq> nn_object st \<and>
     SimpleNetwork_call
       \<lparr>weights = [LeakedTracer, LeakedTracer], bias = [LeakedTracer, LeakedTracer]\<rparr> [1] = None \<and>
     call_optimiser st1 (nn_params st1)
       [Mat [[0]], Mat [[- (1 / 4)], [1 / 4]], Vec [0], Vec [- (1 / 4), 1 / 4]] (Finite (1 / 10)) =
       Some (nn_params st, st2) \<and>
     heap st2 (nn_params st) =
       Some [Concrete (Mat [[1]]), Concrete (Mat [[1 / 40], [- (1 / 40)]]),
             Concrete (Vec [0]), Concrete (Vec [1 / 40, - (1 / 40)])] \<and>
     nn_object st2 = nn_object st1"
proof -
  let ?net = "\<lparr>weights = [Concrete (Mat [[1]]), Concrete (Mat [[0], [0]])],
               bias = [Concrete (Vec [0]), Concrete (Vec [0, 0])]\<rparr>"
  let ?g = "[Mat [[0]], Mat [[- (1 / 4)], [1 / 4]], Vec [0], Vec [- (1 / 4), 1 / 4 :: real]]"
  let ?st = "\<lparr>heap = [0 \<mapsto> [Concrete (Mat [[1]]), Concrete (Mat [[0], [0]])],
                      Suc 0 \<mapsto> [Concrete (Vec [0]), Concrete (Vec [0, 0])],
                      Suc (Suc 0) \<mapsto> [Concrete (Mat [[1]]), Concrete (Mat [[0], [0]]),
                                           Concrete (Vec [0]), Concrete (Vec [0, 0])]],
              next_free = Suc (Suc (Suc 0)), nn_weights = 0, nn_bias = Suc 0,
              nn_params = Suc (Suc 0), loss_log = []\<rparr>"
  let ?st1 = "?st\<lparr>heap := (heap ?st)(next_free ?st \<mapsto> [LeakedTracer, LeakedTracer],
                                       Suc (next_free ?st) \<mapsto> [LeakedTracer, LeakedTracer]),
                  next_free := Suc (Suc (next_free ?st)),
                  nn_weights := next_free ?st, nn_bias := Suc (next_free ?st)\<rparr>"
  let ?st2 = "?st1\<lparr>heap := (heap ?st1)(nn_params ?st1 \<mapsto>
                   [Concrete (Mat [[1]]), Concrete (Mat [[1 / 40], [- (1 / 40)]]),
                    Concrete (Vec [0]), Concrete (Vec [1 / 40, - (1 / 40)])])\<rparr>"
  have 1: "notebook_init ?net = Some ?st" by (rule example_notebook_init)
  have 2: "nn_object ?st = Some ?net" by (simp add: nn_object_def)
  have 3: "call_loss (\<lambda>ps x y. ?g) ?st [[1]] [[1, 0]] = Some (ln 2 / 2, ?g, ?st1)"
    by (rule example_call_loss [OF 1])
  have 4: "nn_object ?st1 =
      Some \<lparr>weights = [LeakedTracer, LeakedTracer], bias = [LeakedTracer, LeakedTracer]\<rparr>"
    by (simp add: nn_object_def)
  have 5: "nn_object ?st1 \<noteq> nn_object ?st" by (simp add: nn_object_def)
  have 6: "SimpleNetwork_call
       \<lparr>weights = [LeakedTracer, LeakedTracer], bias = [LeakedTracer, LeakedTracer]\<rparr> [1] = None"
    by (simp add: SimpleNetwork_call_def nth_opt_def linear_layer_def)
  have 7: "call_optimiser ?st1 (nn_params ?st1) ?g (Finite (1 / 10)) = Some (nn_params ?st, ?st2)"
    by (simp add: call_optimiser_def example_optimiser)
  have 8: "heap ?st2 (nn_params ?st) =
       Some [Concrete (Mat [[1]]), Concrete (Mat [[1 / 40], [- (1 / 40)]]),
             Concrete (Vec [0]), Concrete (Vec [1 / 40, - (1 / 40)])]"
    by simp
  have 9: "nn_object ?st2 = nn_object ?st1" by (simp add: nn_object_def)
  from 1 2 3 4 5 6 7 8 9 show ?thesis by blast
qed

text \<open>
  Claim C3, amended. In the hand-written notebook the fields \<^verbatim>\<open>nn.weights\<close> and
  \<^verbatim>\<open>nn.bias\<close> have two writers and no other. The first is the loss call: when the three
  lists are distinct objects, every iteration of the loop is a loss call followed by an
  optimiser call on the list \<^verbatim>\<open>nn_params\<close>; the loss call binds both fields to two new
  lists, which hold leaked tracers after the call, and changes no list that existed
  before, the list of parameters included. The optimiser call is not a writer of the
  fields: it leaves both fields and every list other than \<^verbatim>\<open>nn_params\<close> as they were,
  puts its result into the slots of that same list and returns that list, computed from
  the slots before the call and the gradient. So after the iteration the object holds
  leaked tracers, the variable \<^verbatim>\<open>nn_params\<close> refers to the list it referred to before,
  and the three lists are still distinct: the fields are never aliased by
  \<^verbatim>\<open>nn_params\<close>. The second writer is the pair of assignments after the loop: they bind
  the fields to two new tuples that hold the first four slots of \<^verbatim>\<open>nn_params\<close>, change
  no list that existed before, and leave the three objects distinct. In the notebook
  built on the libraries the model is immutable: a step computes the loss of the model
  it is given and returns a new model, the old one with the optimiser's updates added.
\<close>

theorem model_fields_written_by_loss_call_and_final_assignment:
  assumes "unaliased st"
    and "train_step grad_of st x y = Some st'"
    and "unaliased st_end"
    and "store_trained_parameters st_end = Some st_end'"
    and "make_step optim_update grad_eqx model opt_state X Y = Some (model', opt_state', v)"
  shows
    "(\<exists>loss_value grad st1 st2.
        call_loss grad_of st x y = Some (loss_value, grad, st1) \<and>
        call_optimiser st1 (nn_params st1) grad (Finite (1 / 10)) = Some (nn_params st, st2) \<and>
        st' = st2\<lparr>nn_params := nn_params st, loss_log := loss_log st @ [loss_value]\<rparr> \<and>
        nn_weights st1 = next_free st \<and> nn_bias st1 = Suc (next_free st) \<and>
        nn_object st1 =
          Some \<lparr>weights = [LeakedTracer, LeakedTracer], bias = [LeakedTracer, LeakedTracer]\<rparr> \<and>
        nn_params st1 = nn_params st \<and> (\<forall>a. a < next_free st \<longrightarrow> heap st1 a = heap st a) \<and>
        unaliased st1 \<and>
        nn_weights st2 = nn_weights st1 \<and> nn_bias st2 = nn_bias st1 \<and>
        nn_params st2 = nn_params st \<and> nn_object st2 = nn_object st1 \<and>
        (\<forall>a. a \<noteq> nn_params st \<longrightarrow> heap st2 a = heap st1 a) \<and>
        (\<exists>slots ps. heap st (nn_params st) = Some slots \<and> vmap value_of slots = Some ps \<and>
                    grad = grad_of ps x y \<and>
                    heap st2 (nn_params st) = optimiser slots grad (Finite (1 / 10))) \<and>
        unaliased st2) \<and>
     (nn_object st' =
        Some \<lparr>weights = [LeakedTracer, LeakedTracer], bias = [LeakedTracer, LeakedTracer]\<rparr> \<and>
      nn_params st' = nn_params st \<and> unaliased st') \<and>
     ((\<exists>ps. heap st_end (nn_params st_end) = Some ps \<and> 4 \<le> length ps \<and>
            nn_object st_end' = Some \<lparr>weights = [ps ! 0, ps ! 1], bias = [ps ! 2, ps ! 3]\<rparr>) \<and>
      nn_weights st_end' = next_free st_end \<and> nn_bias st_end' = Suc (next_free st_end) \<and>
      nn_params st_end' = nn_params st_end \<and>
      (\<forall>a. a < next_free st_end \<longrightarrow> heap st_end' a = heap st_end a) \<and>
      unaliased st_end') \<and>
     (loss_eqx model X Y = Some v \<and>
      apply_updates model (fst (optim_update (grad_eqx model X Y) opt_state model)) =
        Some model' \<and>
      opt_state' = snd (optim_update (grad_eqx model X Y) opt_state model))"
  by (rule conjI [OF train_step_effect [OF assms(1,2)]
        conjI [OF train_step_leaves_tracers [OF assms(1,2)]
          conjI [OF store_trained_parameters_effect [OF assms(3,4)]
            make_step_effect [OF assms(5)]]]])

text \<open>
  The theorem on the small network, with the gradient of the loss at its parameters and
  the learning rate \<open>1/10\<close> of the notebook: the second layer moves from zero to
  \<open>[[1/40],[-1/40]]\<close> and \<open>[1/40, -1/40]\<close> in the list \<^verbatim>\<open>nn_params\<close>, while the object
  holds leaked tracers; the assignments after the loop store the moved parameters in
  the object. For the library notebook the update is taken to be minus one tenth of
  the gradient.
\<close>

theorem model_fields_written_by_loss_call_and_final_assignment_witness:
  "\<exists>st st' st''.
     notebook_init \<lparr>weights = [Concrete (Mat [[1]]), Concrete (Mat [[0], [0]])],
                    bias = [Concrete (Vec [0]), Concrete (Vec [0, 0])]\<rparr> = Some st \<and>
     unaliased st \<and>
     nn_object st = Some \<lparr>weights = [Concrete (Mat [[1]]), Concrete (Mat [[0], [0]])],
                          bias = [Concrete (Vec [0]), Concrete (Vec [0, 0])]\<rparr> \<and>
     heap st (nn_params st) =
       Some [Concrete (Mat [[1]]), Concrete (Mat [[0], [0]]),
             Concrete (Vec [0]), Concrete (Vec [0, 0])] \<and>
     train_step
       (\<lambda>ps x y. [Mat [[0]], Mat [[- (1 / 4)], [1 / 4]], Vec [0], Vec [- (1 / 4), 1 / 4]])
       st [[1]] [[1, 0]] = Some st' \<and>
     nn_object st' =
       Some \<lparr>weights = [LeakedTracer, LeakedTracer], bias = [LeakedTracer, LeakedTracer]\<rparr> \<and>
     heap st' (nn_params st') =
       Some [Concrete (Mat [[1]]), Concrete (Mat [[1 / 40], [- (1 / 40)]]),
             Concrete (Vec [0]), Concrete (Vec [1 / 40, - (1 / 40)])] \<and>
     loss_log st' = [ln 2 / 2] \<and>
     unaliased st' \<and>
     store_trained_parameters st' = Some st'' \<and>
     nn_object st'' =
       Some \<lparr>weights = [Concrete (Mat [[1]]), Concrete (Mat [[1 / 40], [- (1 / 40)]])],
             bias = [Concrete (Vec [0]), Concrete (Vec [1 / 40, - (1 / 40)])]\<rparr> \<and>
     heap st'' (nn_params st'') = heap st' (nn_params st') \<and>
     unaliased st'' \<and>
     make_step
       (\<lambda>grad opt_state model.
          ([Linear [[0]] [0], Relu, Linear [[1 / 40], [- (1 / 40)]] [1 / 40, - (1 / 40)], Softmax],
           Suc opt_state))
       (\<lambda>model X Y. [Linear [[0]] [0], Relu, Linear [[- (1 / 4)], [1 / 4]] [- (1 / 4), 1 / 4],
                      Softmax])
       (SimpleNetwork_eqx_init [[1]] [0] [[0], [0]] [0, 0]) 0 [[1]] [[1, 0]] =
       Some ([Linear [[1]] [0], Relu, Linear [[1 / 40], [- (1 / 40)]] [1 / 40, - (1 / 40)],
              Softmax], Suc 0, ln 2 / 2) \<and>
     loss_eqx (SimpleNetwork_eqx_init [[1]] [0] [[0], [0]] [0, 0]) [[1]] [[1, 0]] =
       Some (ln 2 / 2) \<and>
     apply_updates (SimpleNetwork_eqx_init [[1]] [0] [[0], [0]] [0, 0])
       [Linear [[0]] [0], Relu, Linear [[1 / 40], [- (1 / 40)]] [1 / 40, - (1 / 40)], Softmax] =
       Some [Linear [[1]] [0], Relu, Linear [[1 / 40], [- (1 / 40)]] [1 / 40, - (1 / 40)],
             Softmax]"
proof -
  let ?net = "\<lparr>weights = [Concrete (Mat [[1]]), Concrete (Mat [[0], [0]])],
               bias = [Concrete (Vec [0]), Concrete (Vec [0, 0])]\<rparr>"
  let ?g = "\<lambda>(ps :: ndarray list) (x :: real list list) (y :: real list list).
              [Mat [[0]], Mat [[- (1 / 4)], [1 / 4]], Vec [0], Vec [- (1 / 4), 1 / 4]]"
  let ?slots = "[Concrete (Mat [[1]]), Concrete (Mat [[0], [0]]),
                 Concrete (Vec [0]), Concrete (Vec [0, 0])]"
  let ?slots' = "[Concrete (Mat [[1]]), Concrete (Mat [[1 / 40], [- (1 / 40)]]),
                  Concrete (Vec [0]), Concrete (Vec [1 / 40, - (1 / 40)])]"
  from example_notebook_init obtain st where init: "notebook_init ?net = Some st" by blast
  from notebook_init_effect [OF init]
  have st: "unaliased st" "nn_object st = Some ?net" "heap st (nn_params st) = Some ?slots"
    by simp_all
  from example_train_step [OF init] obtain st'
    where ts: "train_step ?g st [[1]] [[1, 0]] = Some st'" by blast
  from train_step_leaves_tracers [OF st(1) ts]
  have st': "nn_params st' = nn_params st" "unaliased st'" by simp_all
  from train_step_effect [OF st(1) ts] obtain loss_value grad st1 st2
    where e: "call_loss ?g st [[1]] [[1, 0]] = Some (loss_value, grad, st1)"
      "st' = st2\<lparr>nn_params := nn_params st, loss_log := loss_log st @ [loss_value]\<rparr>"
      "\<exists>slots ps. heap st (nn_params st) = Some slots \<and> vmap value_of slots = Some ps \<and>
         grad = ?g ps [[1]] [[1, 0]] \<and>
         heap st2 (nn_params st) = optimiser slots grad (Finite (1 / 10))"
    by blast
  from e(3) st(3) have "heap st2 (nn_params st) = Some ?slots'"
    by (simp add: example_optimiser)
  with e(2) have h': "heap st' (nn_params st') = Some ?slots'" by simp
  from e(1) example_call_loss [OF init, of "?g [] [] []"] have "loss_value = ln 2 / 2" by simp
  moreover from notebook_init_state [OF init] have "loss_log st = []" by simp
  ultimately have log: "loss_log st' = [ln 2 / 2]" using e(2) by simp
  from st'(2) have "nn_params st' < next_free st'" by (simp add: unaliased_def)
  from store_trained_parameters_returns [OF this h'] obtain st''
    where sp: "store_trained_parameters st' = Some st''" by auto
  note ms = example_make_step
  note t = model_fields_written_by_loss_call_and_final_assignment [OF st(1) ts st'(2) sp ms]
  from t [THEN conjunct2, THEN conjunct1]
  have r1: "nn_object st' =
        Some \<lparr>weights = [LeakedTracer, LeakedTracer], bias = [LeakedTracer, LeakedTracer]\<rparr>"
    by blast
  from t [THEN conjunct2, THEN conjunct2, THEN conjunct1]
  have r: "\<exists>ps. heap st' (nn_params st') = Some ps \<and> 4 \<le> length ps \<and>
          nn_object st'' = Some \<lparr>weights = [ps ! 0, ps ! 1], bias = [ps ! 2, ps ! 3]\<rparr>"
    "nn_params st'' = nn_params st'"
    "\<forall>a. a < next_free st' \<longrightarrow> heap st'' a = heap st' a"
    "unaliased st''"
    by blast+
  from t [THEN conjunct2, THEN conjunct2, THEN conjunct2]
  have q: "loss_eqx (SimpleNetwork_eqx_init [[1]] [0] [[0], [0]] [0, 0]) [[1]] [[1, 0]] =
       Some (ln 2 / 2)"
    "apply_updates (SimpleNetwork_eqx_init [[1]] [0] [[0], [0]] [0, 0])
       [Linear [[0]] [0], Relu, Linear [[1 / 40], [- (1 / 40)]] [1 / 40, - (1 / 40)], Softmax] =
       Some [Linear [[1]] [0], Relu, Linear [[1 / 40], [- (1 / 40)]] [1 / 40, - (1 / 40)],
             Softmax]"
    by simp_all
  from r(1) h' have o'': "nn_object st'' =
       Some \<lparr>weights = [Concrete (Mat [[1]]), Concrete (Mat [[1 / 40], [- (1 / 40)]])],
             bias = [Concrete (Vec [0]), Concrete (Vec [1 / 40, - (1 / 40)])]\<rparr>"
    by auto
  from r(2,3) \<open>nn_params st' < next_free st'\<close>
  have h'': "heap st'' (nn_params st'') = heap st' (nn_params st')" by simp
  from init st ts r1 h' log st'(2) sp o'' h'' r(4) ms q show ?thesis by blast
qed

section \<open>The confusion matrix\<close>

lemma confusion_loop_invariant:
  assumes "length cm = 10" and "\<forall>row\<in>set cm. length row = 10"
    and "\<forall>i\<in>set is. i < length preds \<and> y ! i < 10 \<and> preds ! i < 10"
  shows "\<exists>cm'. confusion_loop cm y preds is = Some cm' \<and>
           length cm' = 10 \<and> (\<forall>row\<in>set cm'. length row = 10) \<and>
           (\<forall>r<10. sum_list (cm' ! r) =
                     sum_list (cm ! r) + real (length (filter (\<lambda>i. y ! i = r) is))) \<and>
           sum_list (map sum_list cm') = sum_list (map sum_list cm) + real (length is)"
  using assms
proof (induction "is" arbitrary: cm)
  case Nil
  then show ?case by simp
next
  case (Cons i rest)
  define r where "r = y ! i"
  define p where "p = preds ! i"
  define row' where "row' = (cm ! r)[p := cm ! r ! p + 1]"
  define cm1 where "cm1 = cm[r := row']"
  have i: "i < length preds" and r: "r < 10" and p: "p < 10"
    using Cons.prems(3) by (simp_all add: r_def p_def)
  have rlen: "r < length cm" using r Cons.prems(1) by simp
  then have "cm ! r \<in> set cm" by simp
  then have plen: "p < length (cm ! r)" using p Cons.prems(2) by simp
  have step: "confusion_loop cm y preds (i # rest) = confusion_loop cm1 y preds rest"
    using i rlen plen
    by (simp add: jax_get_in_range jax_get2_in_range at_set_def r_def [symmetric]
        p_def [symmetric] cm1_def row'_def)
  have len1: "length cm1 = 10" using Cons.prems(1) by (simp add: cm1_def)
  have "length row' = 10" using plen p Cons.prems(2) \<open>cm ! r \<in> set cm\<close> by (simp add: row'_def)
  then have rows1: "\<forall>row\<in>set cm1. length row = 10"
    using Cons.prems(2) set_update_subset_insert [of cm r row'] by (auto simp: cm1_def)
  have rest: "\<forall>i\<in>set rest. i < length preds \<and> y ! i < 10 \<and> preds ! i < 10"
    using Cons.prems(3) by simp
  from Cons.IH [OF len1 rows1 rest] obtain cm' where cm':
    "confusion_loop cm1 y preds rest = Some cm'" "length cm' = 10" "\<forall>row\<in>set cm'. length row = 10"
    "\<forall>q<10. sum_list (cm' ! q) = sum_list (cm1 ! q) + real (length (filter (\<lambda>i. y ! i = q) rest))"
    "sum_list (map sum_list cm') = sum_list (map sum_list cm1) + real (length rest)"
    by blast
  have row_sum: "sum_list row' = sum_list (cm ! r) + 1"
    using plen by (simp add: row'_def sum_list_update_add)
  have rowsum1: "sum_list (cm1 ! q) = sum_list (cm ! q) + (if q = r then 1 else 0)" if "q < 10" for q
    using that rlen Cons.prems(1) row_sum by (simp add: cm1_def nth_list_update)
  have "map sum_list cm1 = (map sum_list cm)[r := map sum_list cm ! r + 1]"
    using rlen row_sum by (simp add: cm1_def map_update)
  then have total1: "sum_list (map sum_list cm1) = sum_list (map sum_list cm) + 1"
    using rlen sum_list_update_add [of r "map sum_list cm" 1] by simp
  have "\<forall>q<10. sum_list (cm' ! q) =
           sum_list (cm ! q) + real (length (filter (\<lambda>i. y ! i = q) (i # rest)))"
    using cm'(4) rowsum1 by (auto simp: r_def)
  moreover have "sum_list (map sum_list cm') = sum_list (map sum_list cm) + real (length (i # rest))"
    using cm'(5) total1 by simp
  ultimately show ?case using step cm'(1,2,3) by auto
qed

lemma zeros_shape: "length (zeros r c) = r \<and> (\<forall>row\<in>set (zeros r c). length row = c)"
  by (auto simp: zeros_def)

lemma zeros_row_sum: "q < r \<Longrightarrow> sum_list (zeros r c ! q) = 0"
  by (simp add: zeros_def sum_list_replicate)

lemma zeros_total: "sum_list (map sum_list (zeros r c)) = 0"
  by (simp add: zeros_def sum_list_replicate)

lemma count_indices: "length (filter (\<lambda>i. y ! i = q) [0..<length y]) = count_list y q"
proof -
  have "filter (\<lambda>l. l = q) y = map ((!) y) (filter (\<lambda>i. y ! i = q) [0..<length y])"
    by (subst (1) map_nth [symmetric, of y]) (simp only: filter_map o_def)
  then have "length (filter (\<lambda>l. l = q) y) = length (filter (\<lambda>i. y ! i = q) [0..<length y])"
    by simp
  moreover have "count_list y q = length (filter (\<lambda>l. l = q) y)"
    by (induction y) auto
  ultimately show ?thesis by simp
qed

lemma y_test_predictions_in_range:
  assumes "\<forall>r\<in>set x. \<exists>p. model r = Some p \<and> length p = C" and "0 < C"
  shows "\<exists>preds. y_test_predictions model x = Some preds \<and> length preds = length x \<and>
           (\<forall>i<length x. preds ! i < C)"
proof -
  from vmap_Some_all [OF assms(1)] obtain out where out: "vmap model x = Some out"
    "length out = length x" "\<forall>p\<in>set out. length p = C" by blast
  from vmap_argmax_Some [OF out(3) assms(2)] out(1,2) show ?thesis
    by (auto simp: y_test_predictions_def)
qed

lemma confusion_matrix_sums:
  assumes model: "\<forall>r\<in>set x. \<exists>p. model r = Some p \<and> length p = 10"
    and len: "length x = length y" and labels: "\<forall>l\<in>set y. l < 10"
  shows "\<exists>cm. confusion_matrix model x y = Some cm \<and> length cm = 10 \<and>
           (\<forall>r<10. length (cm ! r) = 10 \<and> sum_list (cm ! r) = real (count_list y r)) \<and>
           sum_list (concat cm) = real (length y)"
proof -
  from y_test_predictions_in_range [OF model] obtain preds
    where preds: "y_test_predictions model x = Some preds" "length preds = length x"
      "\<forall>i<length x. preds ! i < 10" by auto
  have idx: "\<forall>i\<in>set [0..<length y]. i < length preds \<and> y ! i < 10 \<and> preds ! i < 10"
    using preds(2,3) len labels by simp
  from confusion_loop_invariant [OF _ _ idx, of "zeros 10 10"] zeros_shape [of 10 10]
  obtain cm where cm: "confusion_loop (zeros 10 10) y preds [0..<length y] = Some cm"
    "length cm = 10" "\<forall>row\<in>set cm. length row = 10"
    "\<forall>r<10. sum_list (cm ! r) = sum_list (zeros 10 10 ! r) +
        real (length (filter (\<lambda>i. y ! i = r) [0..<length y]))"
    "sum_list (map sum_list cm) = sum_list (map sum_list (zeros 10 10)) +
        real (length [0..<length y])"
    by blast
  have "\<forall>r<10. length (cm ! r) = 10 \<and> sum_list (cm ! r) = real (count_list y r)"
    using cm(2,3,4) by (simp add: zeros_row_sum count_indices)
  moreover have "sum_list (concat cm) = real (length y)"
    using cm(5) by (simp add: zeros_total sum_list_concat_rows)
  ultimately show ?thesis using preds(1) cm(1,2) by (simp add: confusion_matrix_def)
qed

lemma increments_in_bounds:
  assumes model: "\<forall>r\<in>set x. \<exists>p. model r = Some p \<and> length p = 10"
    and len: "length x = length y" and labels: "\<forall>l\<in>set y. l < 10"
  shows "\<exists>preds. y_test_predictions model x = Some preds \<and> length preds = length y \<and>
           (\<forall>k<length y. y ! k < 10 \<and> preds ! k < 10 \<and>
              (\<exists>cm. confusion_loop (zeros 10 10) y preds [0..<k] = Some cm \<and>
                    y ! k < length cm \<and> preds ! k < length (cm ! (y ! k))))"
proof -
  from y_test_predictions_in_range [OF model] obtain preds
    where preds: "y_test_predictions model x = Some preds" "length preds = length x"
      "\<forall>i<length x. preds ! i < 10" by auto
  have "y ! k < 10 \<and> preds ! k < 10 \<and>
        (\<exists>cm. confusion_loop (zeros 10 10) y preds [0..<k] = Some cm \<and>
              y ! k < length cm \<and> preds ! k < length (cm ! (y ! k)))" if k: "k < length y" for k
  proof -
    have yk: "y ! k < 10" using k labels by simp
    have pk: "preds ! k < 10" using k preds(3) len by simp
    have idx: "\<forall>i\<in>set [0..<k]. i < length preds \<and> y ! i < 10 \<and> preds ! i < 10"
      using preds(2,3) len labels k by simp
    from confusion_loop_invariant [OF _ _ idx, of "zeros 10 10"] zeros_shape [of 10 10]
    obtain cm where cm: "confusion_loop (zeros 10 10) y preds [0..<k] = Some cm"
      "length cm = 10" "\<forall>row\<in>set cm. length row = 10" by blast
    from cm(2,3) yk have "length (cm ! (y ! k)) = 10" by simp
    with cm yk pk show ?thesis by simp
  qed
  with preds(1,2) len show ?thesis by simp
qed

text \<open>
  Claim C7. After the evaluation of a test set whose true labels lie in \<open>[0,9]\<close>, row
  \<open>r\<close> of the 10 x 10 confusion matrix sums to the number of test samples with true
  label \<open>r\<close>, and all entries together sum to the number of test samples. The matrix
  starts as zeros and every sample adds 1 to one cell. Stated for the evaluation cell of
  both perceptron notebooks.
\<close>

theorem confusion_matrix_row_sums_and_total:
  assumes "has_shape self n h 10" and "linear_shape n h W1 b1" and "linear_shape h 10 W2 b2"
    and "\<forall>r\<in>set x_test_flat. length r = n"
    and "length x_test_flat = length y_test" and "\<forall>l\<in>set y_test. l < 10"
  shows "(\<exists>cm. confusion_matrix (SimpleNetwork_eqx_call (SimpleNetwork_eqx_init W1 b1 W2 b2))
                 x_test_flat y_test = Some cm \<and>
              length cm = 10 \<and>
              (\<forall>r<10. length (cm ! r) = 10 \<and> sum_list (cm ! r) = real (count_list y_test r)) \<and>
              sum_list (concat cm) = real (length y_test)) \<and>
         (\<exists>cm. confusion_matrix (SimpleNetwork_call self) x_test_flat y_test = Some cm \<and>
              length cm = 10 \<and>
              (\<forall>r<10. length (cm ! r) = 10 \<and> sum_list (cm ! r) = real (count_list y_test r)) \<and>
              sum_list (concat cm) = real (length y_test))"
proof -
  have e: "\<forall>r\<in>set x_test_flat. \<exists>p.
      SimpleNetwork_eqx_call (SimpleNetwork_eqx_init W1 b1 W2 b2) r = Some p \<and> length p = 10"
    using assms(4) SimpleNetwork_eqx_call_positive [OF assms(2,3)] by (metis zero_less_numeral)
  have s: "\<forall>r\<in>set x_test_flat. \<exists>p. SimpleNetwork_call self r = Some p \<and> length p = 10"
    using assms(4) SimpleNetwork_call_positive [OF assms(1)] by metis
  from confusion_matrix_sums [OF e assms(5,6)] confusion_matrix_sums [OF s assms(5,6)]
  show ?thesis by blast
qed

theorem confusion_matrix_row_sums_and_total_witness:
  "has_shape \<lparr>weights = [Concrete (Mat [[1]]), Concrete (Mat (replicate 10 [1]))],
     bias = [Concrete (Vec [0]), Concrete (Vec (replicate 10 0))]\<rparr> 1 1 10 \<and>
   linear_shape 1 1 [[1]] [0] \<and> linear_shape 1 10 (replicate 10 [1]) (replicate 10 0) \<and>
   (\<exists>cm. confusion_matrix
            (SimpleNetwork_eqx_call (SimpleNetwork_eqx_init [[1]] [0] (replicate 10 [1]) (replicate 10 0)))
            [[1], [2]] [3, 7] = Some cm \<and>
        length cm = 10 \<and>
        (\<forall>r<10. length (cm ! r) = 10 \<and> sum_list (cm ! r) = real (count_list [3, 7] r)) \<and>
        sum_list (concat cm) = real (length [3, 7 :: nat])) \<and>
   (\<exists>cm. confusion_matrix
            (SimpleNetwork_call \<lparr>weights = [Concrete (Mat [[1]]), Concrete (Mat (replicate 10 [1]))],
                                 bias = [Concrete (Vec [0]), Concrete (Vec (replicate 10 0))]\<rparr>)
            [[1], [2]] [3, 7] = Some cm \<and>
        length cm = 10 \<and>
        (\<forall>r<10. length (cm ! r) = 10 \<and> sum_list (cm ! r) = real (count_list [3, 7] r)) \<and>
        sum_list (concat cm) = real (length [3, 7 :: nat]))"
proof -
  have s: "has_shape \<lparr>weights = [Concrete (Mat [[1]]), Concrete (Mat (replicate 10 [1]))],
                       bias = [Concrete (Vec [0]), Concrete (Vec (replicate 10 0))]\<rparr> 1 1 10"
    by (simp add: has_shape_def refers_to_def is_matrix_def is_vector_def list_all_iff)
  have l1: "linear_shape 1 1 [[1]] [0]" by (simp add: linear_shape_def)
  have l2: "linear_shape 1 10 (replicate 10 [1]) (replicate 10 0)"
    by (simp add: linear_shape_def list_all_iff)
  have d: "\<forall>r\<in>set [[1], [2 :: real]]. length r = 1" "length [[1], [2 :: real]] = length [3, 7 :: nat]"
    "\<forall>l\<in>set [3, 7 :: nat]. l < 10" by simp_all
  from confusion_matrix_row_sums_and_total [OF s l1 l2 d] s l1 l2
  show ?thesis by blast
qed

text \<open>
  Claim C10. When every true label lies in \<open>[0,9]\<close>, every predicted label (the arg-max
  of the ten outputs of the network) lies in \<open>[0,9]\<close> too, and at every iteration \<open>k\<close>
  of the accumulation the cell \<open>[y_test[k], prediction[k]]\<close> lies within the matrix as it
  is before that iteration.
\<close>

theorem confusion_increments_in_bounds:
  assumes "has_shape self n h 10" and "linear_shape n h W1 b1" and "linear_shape h 10 W2 b2"
    and "\<forall>r\<in>set x_test_flat. length r = n"
    and "length x_test_flat = length y_test" and "\<forall>l\<in>set y_test. l < 10"
  shows "(\<exists>preds. y_test_predictions (SimpleNetwork_eqx_call (SimpleNetwork_eqx_init W1 b1 W2 b2))
                    x_test_flat = Some preds \<and> length preds = length y_test \<and>
           (\<forall>k<length y_test. y_test ! k < 10 \<and> preds ! k < 10 \<and>
              (\<exists>cm. confusion_loop (zeros 10 10) y_test preds [0..<k] = Some cm \<and>
                    y_test ! k < length cm \<and> preds ! k < length (cm ! (y_test ! k))))) \<and>
         (\<exists>preds. y_test_predictions (SimpleNetwork_call self) x_test_flat = Some preds \<and>
           length preds = length y_test \<and>
           (\<forall>k<length y_test. y_test ! k < 10 \<and> preds ! k < 10 \<and>
              (\<exists>cm. confusion_loop (zeros 10 10) y_test preds [0..<k] = Some cm \<and>
                    y_test ! k < length cm \<and> preds ! k < length (cm ! (y_test ! k)))))"
proof -
  have e: "\<forall>r\<in>set x_test_flat. \<exists>p.
      SimpleNetwork_eqx_call (SimpleNetwork_eqx_init W1 b1 W2 b2) r = Some p \<and> length p = 10"
    using assms(4) SimpleNetwork_eqx_call_positive [OF assms(2,3)] by (metis zero_less_numeral)
  have s: "\<forall>r\<in>set x_test_flat. \<exists>p. SimpleNetwork_call self r = Some p \<and> length p = 10"
    using assms(4) SimpleNetwork_call_positive [OF assms(1)] by metis
  from increments_in_bounds [OF e assms(5,6)] increments_in_bounds [OF s assms(5,6)]
  show ?thesis by blast
qed

theorem confusion_increments_in_bounds_witness:
  "has_shape \<lparr>weights = [Concrete (Mat [[1]]), Concrete (Mat (replicate 10 [1]))],
     bias = [Concrete (Vec [0]), Concrete (Vec (replicate 10 0))]\<rparr> 1 1 10 \<and>
   linear_shape 1 1 [[1]] [0] \<and> linear_shape 1 10 (replicate 10 [1]) (replicate 10 0) \<and>
   (\<exists>preds. y_test_predictions
        (SimpleNetwork_eqx_call (SimpleNetwork_eqx_init [[1]] [0] (replicate 10 [1]) (replicate 10 0)))
        [[1], [2]] = Some preds \<and> length preds = length [3, 7 :: nat] \<and>
      (\<forall>k<length [3, 7 :: nat]. [3, 7] ! k < (10 :: nat) \<and> preds ! k < 10 \<and>
         (\<exists>cm. confusion_loop (zeros 10 10) [3, 7] preds [0..<k] = Some cm \<and>
               [3, 7] ! k < length cm \<and> preds ! k < length (cm ! ([3, 7] ! k))))) \<and>
   (\<exists>preds. y_test_predictions
        (SimpleNetwork_call \<lparr>weights = [Concrete (Mat [[1]]), Concrete (Mat (replicate 10 [1]))],
                             bias = [Concrete (Vec [0]), Concrete (Vec (replicate 10 0))]\<rparr>)
        [[1], [2]] = Some preds \<and> length preds = length [3, 7 :: nat] \<and>
      (\<forall>k<length [3, 7 :: nat]. [3, 7] ! k < (10 :: nat) \<and> preds ! k < 10 \<and>
         (\<exists>cm. confusion_loop (zeros 10 10) [3, 7] preds [0..<k] = Some cm \<and>
               [3, 7] ! k < length cm \<and> preds ! k < length (cm ! ([3, 7] ! k)))))"
proof -
  have s: "has_shape \<lparr>weights = [Concrete (Mat [[1]]), Concrete (Mat (replicate 10 [1]))],
                       bias = [Concrete (Vec [0]), Concrete (Vec (replicate 10 0))]\<rparr> 1 1 10"
    by (simp add: has_shape_def refers_to_def is_matrix_def is_vector_def list_all_iff)
  have l1: "linear_shape 1 1 [[1]] [0]" by (simp add: linear_shape_def)
  have l2: "linear_shape 1 10 (replicate 10 [1]) (replicate 10 0)"
    by (simp add: linear_shape_def list_all_iff)
  have d: "\<forall>r\<in>set [[1], [2 :: real]]. length r = 1" "length [[1], [2 :: real]] = length [3, 7 :: nat]"
    "\<forall>l\<in>set [3, 7 :: nat]. l < 10" by simp_all
  from confusion_increments_in_bounds [OF s l1 l2 d] s l1 l2
  show ?thesis by blast
qed

section \<open>Grouping by digit\<close>

lemma mask_select_Some:
  "length x = length y \<Longrightarrow> mask_select x y i = Some (class_samples x y i)"
  by (simp add: mask_select_def)

lemma length_class_samples:
  "length x = length y \<Longrightarrow> length (class_samples x y i) = count_list y i"
  unfolding class_samples_def
  by (induction x y rule: list_induct2) auto

lemma group_loop_upt:
  assumes "length x = length y" and "length g = k"
  shows "group_loop x y (g, ls) [k..<n] =
         Some (g @ map (class_samples x y) [k..<n],
               ls @ map (\<lambda>i. length (class_samples x y i)) [k..<n])"
  using assms(2)
proof (induction "n - k" arbitrary: k g ls)
  case 0
  then show ?case by simp
next
  case (Suc d)
  then have kn: "k < n" and d: "d = n - Suc k" by simp_all
  have upt: "[k..<n] = k # [Suc k..<n]" using kn by (simp add: upt_conv_Cons)
  have len: "length (g @ [class_samples x y k]) = Suc k" using Suc.prems by simp
  have nth: "nth_opt (g @ [class_samples x y k]) k = Some (class_samples x y k)"
    using Suc.prems by (simp add: nth_opt_def nth_append)
  show ?case
    unfolding upt
    using Suc.hyps(1) [OF d len, of "ls @ [length (class_samples x y k)]"] nth
    by (simp add: mask_select_Some [OF assms(1)] Let_def)
qed

lemma truncate_loop_upt:
  assumes "n \<le> length g"
  shows "\<exists>g'. truncate_loop g m [k..<n] = Some g' \<and> length g' = length g \<and>
           (\<forall>j<length g. g' ! j = (if k \<le> j \<and> j < n then take m (g ! j) else g ! j))"
  using assms
proof (induction "n - k" arbitrary: k g)
  case 0
  then show ?case by simp
next
  case (Suc d)
  then have kn: "k < n" and d: "d = n - Suc k" by simp_all
  have upt: "[k..<n] = k # [Suc k..<n]" using kn by (simp add: upt_conv_Cons)
  let ?g1 = "g[k := take m (g ! k)]"
  have klen: "k < length g" using kn Suc.prems by simp
  have "n \<le> length ?g1" using Suc.prems by simp
  from Suc.hyps(1) [OF d this] obtain g' where g': "truncate_loop ?g1 m [Suc k..<n] = Some g'"
    "length g' = length ?g1"
    "\<forall>j<length ?g1. g' ! j = (if Suc k \<le> j \<and> j < n then take m (?g1 ! j) else ?g1 ! j)"
    by blast
  have "truncate_loop g m [k..<n] = Some g'"
    unfolding upt using klen g'(1) by (simp add: nth_opt_def)
  moreover have "\<forall>j<length g. g' ! j = (if k \<le> j \<and> j < n then take m (g ! j) else g ! j)"
    using g'(3) kn klen by (auto simp: nth_list_update)
  ultimately show ?case using g'(2) by simp
qed

lemma np_min_Min: "ls \<noteq> [] \<Longrightarrow> np_min ls = Some (Min (set ls))"
proof (cases ls)
  case Nil
  assume "ls \<noteq> []"
  with Nil show ?thesis by simp
next
  case (Cons l rest)
  show ?thesis unfolding Cons np_min.simps by (simp only: Min.set_eq_fold)
qed

lemma x_train_grouped_spec:
  assumes "length x = length y"
  shows "\<exists>g. x_train_grouped x y = Some g \<and> length g = 10 \<and>
           (\<forall>c<10. g ! c = take (Min (count_list y ` {..<10})) (class_samples x y c))"
proof -
  let ?g = "map (class_samples x y) [0..<10]"
  let ?ls = "map (\<lambda>i. length (class_samples x y i)) [0..<10]"
  let ?m = "Min (count_list y ` {..<10})"
  have loop1: "group_loop x y ([], []) [0..<10] = Some (?g, ?ls)"
    using group_loop_upt [OF assms, of "[]" 0 "[]" 10] by simp
  have seteq: "set ?ls = count_list y ` {..<10}"
    by (simp add: length_class_samples [OF assms] atLeast0LessThan del: upt.simps upt_rec_numeral)
  have "np_min ?ls = Some (Min (set ?ls))" by (rule np_min_Min) simp
  then have minl: "np_min ?ls = Some ?m" by (simp only: seteq)
  have "10 \<le> length ?g" by simp
  from truncate_loop_upt [OF this, of ?m 0] obtain g' where g':
    "truncate_loop ?g ?m [0..<10] = Some g'" "length g' = length ?g"
    "\<forall>j<length ?g. g' ! j = (if 0 \<le> j \<and> j < 10 then take ?m (?g ! j) else ?g ! j)"
    by blast
  have "x_train_grouped x y = Some g'"
    using loop1 minl g'(1) by (simp only: x_train_grouped_def bind.simps prod.case)
  moreover have "length g' = 10" using g'(2) by simp
  moreover have "\<forall>c<10. g' ! c = take ?m (class_samples x y c)"
  proof (intro allI impI)
    fix c :: nat assume c: "c < 10"
    then have "?g ! c = class_samples x y c" by (simp del: upt.simps upt_rec_numeral)
    with g'(3) c show "g' ! c = take ?m (class_samples x y c)"
      by (simp del: upt.simps upt_rec_numeral)
  qed
  ultimately show ?thesis by blast
qed

text \<open>
  Claim C9. The grouping step of the notebook of the differential equation returns, for
  every list of images paired with labels, ten groups; the group of every class \<open>c\<close> in
  \<open>[0,9]\<close> holds exactly as many samples as the least frequent class has, namely the
  first ones of that class in dataset order, the others being dropped; no error is raised
  for an unbalanced dataset, and the stacked array has that many entries of ten images.
\<close>

theorem groups_truncated_to_minimum_class_count:
  assumes "length x_train = length y_train"
  shows "\<exists>grouped. x_train_grouped x_train y_train = Some grouped \<and> length grouped = 10 \<and>
           (\<forall>c<10. length (grouped ! c) = Min (count_list y_train ` {..<10}) \<and>
                    grouped ! c =
                      take (Min (count_list y_train ` {..<10})) (class_samples x_train y_train c)) \<and>
           (\<exists>stacked. x_train_grouped_rearranged x_train y_train = Some stacked \<and>
                length stacked = Min (count_list y_train ` {..<10}) \<and>
                (\<forall>n<length stacked. length (stacked ! n) = 10 \<and>
                   (\<forall>c<10. stacked ! n ! c = grouped ! c ! n)))"
proof -
  let ?m = "Min (count_list y_train ` {..<10})"
  from x_train_grouped_spec [OF assms] obtain g where g:
    "x_train_grouped x_train y_train = Some g" "length g = 10"
    "\<forall>c<10. g ! c = take ?m (class_samples x_train y_train c)" by blast
  have le: "?m \<le> count_list y_train c" if "c < 10" for c
    using that by (intro Min_le) auto
  have lens: "length (g ! c) = ?m" if "c < 10" for c
    using that g(3) le [OF that] by (simp add: length_class_samples [OF assms])
  obtain g0 gs where g0: "g = g0 # gs" using g(2) by (cases g) auto
  then have "g0 = g ! 0" by simp
  then have l0: "length g0 = ?m" using lens [of 0] by simp
  have all: "list_all (\<lambda>gi. length gi = length g0) g"
    unfolding list_all_length using lens l0 g(2) by simp
  let ?t = "map (\<lambda>n. map (\<lambda>gi. gi ! n) g) [0..<length g0]"
  have re: "rearrange g = Some ?t"
    using all unfolding g0 by (simp add: rearrange_def)
  have "x_train_grouped_rearranged x_train y_train = Some ?t"
    using g(1) re by (simp add: x_train_grouped_rearranged_def)
  moreover have "length ?t = ?m" using l0 by simp
  moreover have "\<forall>n<length ?t. length (?t ! n) = 10 \<and> (\<forall>c<10. ?t ! n ! c = g ! c ! n)"
    using g(2) by simp
  ultimately show ?thesis using g(1,2,3) lens by blast
qed

theorem groups_truncated_to_minimum_class_count_witness:
  "\<exists>grouped. x_train_grouped [''a'', ''b'', ''c'', ''d'', ''e'', ''f'', ''g'', ''h'', ''i'', ''j'', ''k'']
                 [0, 1, 2, 3, 4, 5, 6, 7, 8, 9, 0 :: nat] = Some grouped \<and>
      length grouped = 10 \<and>
      (\<forall>c<10. length (grouped ! c) =
                 Min (count_list [0, 1, 2, 3, 4, 5, 6, 7, 8, 9, 0 :: nat] ` {..<10}) \<and>
          grouped ! c =
            take (Min (count_list [0, 1, 2, 3, 4, 5, 6, 7, 8, 9, 0 :: nat] ` {..<10}))
              (class_samples [''a'', ''b'', ''c'', ''d'', ''e'', ''f'', ''g'', ''h'', ''i'', ''j'', ''k'']
                 [0, 1, 2, 3, 4, 5, 6, 7, 8, 9, 0] c)) \<and>
      (\<exists>stacked. x_train_grouped_rearranged
                    [''a'', ''b'', ''c'', ''d'', ''e'', ''f'', ''g'', ''h'', ''i'', ''j'', ''k'']
                    [0, 1, 2, 3, 4, 5, 6, 7, 8, 9, 0 :: nat] = Some stacked \<and>
          length stacked = Min (count_list [0, 1, 2, 3, 4, 5, 6, 7, 8, 9, 0 :: nat] ` {..<10}) \<and>
          (\<forall>n<length stacked. length (stacked ! n) = 10 \<and>
             (\<forall>c<10. stacked ! n ! c = grouped ! c ! n)))"
proof -
  have "length [''a'', ''b'', ''c'', ''d'', ''e'', ''f'', ''g'', ''h'', ''i'', ''j'', ''k''] =
        length [0, 1, 2, 3, 4, 5, 6, 7, 8, 9, 0 :: nat]" by simp
  from groups_truncated_to_minimum_class_count [OF this] show ?thesis .
qed

end
